theory Spec2Isabelle
  imports Main
begin

section \<open>The SQLite wrapper of Notesnook (prepared-statement cache and query executor)\<close>

text \<open>
  The class \<^verbatim>\<open>SQLite\<close> wraps a handle of the embedded encrypted SQL engine. Its
  methods are \<^verbatim>\<open>async\<close>, but every native call inside them is synchronous and the
  wrapper is driven by one control flow, so a method call is modelled as a function from
  the state before the call to an outcome and the state after it. A rejected promise is
  the outcome \<open>Inl\<close> of the thrown value.
\<close>

subsection \<open>Values of the host language\<close>

text \<open>
  A thrown value is an \<^verbatim>\<open>Error\<close> instance with its message, or any other value
  (the source tests \<^verbatim>\<open>ex instanceof Error\<close> before touching the message).
\<close>

datatype thrown = JsError string | JsOther string

text \<open>
  A value of type \<^verbatim>\<open>number\<close>, as far as the wrapper looks at it: \<^verbatim>\<open>NaN\<close>, a
  number whose value is the integer \<open>n\<close>, or any other number (a fraction or an
  infinity). \<^verbatim>\<open>BigInt(x)\<close> returns the integer for the second kind and throws a
  \<^verbatim>\<open>RangeError\<close> for the other two.
\<close>

datatype js_number = NaN | Integral int | NonIntegral

datatype 'a js_opt = Undefined | Null | Defined 'a

definition BigInt :: "js_number \<Rightarrow> thrown + int" where
  "BigInt x =
     (case x of
        Integral n \<Rightarrow> Inr n
      | _ \<Rightarrow> Inl (JsError ''The number cannot be converted to a BigInt because it is not an integer''))"

definition isNaN :: "js_number \<Rightarrow> bool" where
  "isNaN x = (x = NaN)"

datatype SQLiteCompatibleType =
    PNumber js_number
  | PString string
  | PUint8Array "nat list"
  | PArray "js_number list"
  | PBigint int
  | PNull

subsection \<open>The native layer\<close>

text \<open>
  \<^verbatim>\<open>lastInsertRowid\<close> is a number or a bigint; \<^verbatim>\<open>run\<close> returns it with the change
  count.
\<close>

datatype rowid = RowidNumber js_number | RowidBigint int

record RunResult =
  changes :: "js_number js_opt"
  lastInsertRowid :: "rowid js_opt"

record rm_options =
  force :: bool
  maxRetries :: nat
  retryDelay :: nat

text \<open>
  The engine, the two extension packages and the file system are not part of the
  repository: they are a parameter of the model. \<open>'w\<close> is the state of the native layer
  (files, the encryption key, whatever makes a compilation flaky), \<open>'h\<close> a database
  handle, \<open>'s\<close> a compiled statement and \<open>'r\<close> a row. A native call takes the native
  state and returns its outcome with the new native state. The calls that compile or
  execute SQL, open the file, load native code or remove the file may throw;
  \<^verbatim>\<open>close()\<close> of a handle throws only while a query is executing on it, which one
  control flow never does, so it returns.
\<close>

record ('w, 'h, 's, 'r) engine =
  db_open :: "string \<Rightarrow> 'w \<Rightarrow> (thrown + 'h) \<times> 'w"
  db_prepare :: "'h \<Rightarrow> string \<Rightarrow> 'w \<Rightarrow> (thrown + 's option) \<times> 'w"
  db_close :: "'h \<Rightarrow> 'w \<Rightarrow> 'w"
  stmt_reader :: "'s \<Rightarrow> bool"
  stmt_all :: "'s \<Rightarrow> SQLiteCompatibleType list \<Rightarrow> 'w \<Rightarrow> (thrown + 'r list) \<times> 'w"
  stmt_run :: "'s \<Rightarrow> SQLiteCompatibleType list \<Rightarrow> 'w \<Rightarrow> (thrown + RunResult) \<times> 'w"
  betterTrigram_load :: "'h option \<Rightarrow> 'w \<Rightarrow> (thrown + unit) \<times> 'w"
  fts5Html_load :: "'h option \<Rightarrow> 'w \<Rightarrow> (thrown + unit) \<times> 'w"
  fs_rm :: "string \<Rightarrow> rm_options \<Rightarrow> 'w \<Rightarrow> (thrown + unit) \<times> 'w"

text \<open>The native calls a method issues are logged in order, oldest first.\<close>

datatype native_call =
    NOpen string
  | NCompile string
  | NAll
  | NRun
  | NClose
  | NLoadTrigram
  | NLoadFts5Html
  | NRm string rm_options

subsection \<open>The state of the wrapper\<close>

text \<open>
  The five fields of the class, the native state and the log. \<^verbatim>\<open>retryCounter\<close> is a
  plain object used as a dictionary from SQL text to count: a missing key reads as
  \<^verbatim>\<open>undefined\<close>, here \<open>None\<close>. (Keys that a plain object inherits, such as
  \<^verbatim>\<open>__proto__\<close>, are not SQL and are left out.)
\<close>

record ('w, 'h, 's) SQLite =
  sqlite :: "'h option"
  initialized :: bool
  preparedStatements :: "string \<rightharpoonup> 's"
  retryCounter :: "string \<rightharpoonup> nat"
  extensionsLoaded :: bool
  world :: 'w
  calls :: "native_call list"

definition native :: "native_call \<Rightarrow> 'w \<Rightarrow> ('w, 'h, 's) SQLite \<Rightarrow> ('w, 'h, 's) SQLite" where
  "native c w st = st\<lparr>world := w, calls := calls st @ [c]\<rparr>"

record 'r QueryResult =
  rows :: "'r list"
  numAffectedRows :: "int option"
  insertId :: "int option"

subsection \<open>open\<close>

definition "open" ::
  "('w, 'h, 's, 'r) engine \<Rightarrow> string \<Rightarrow> ('w, 'h, 's) SQLite \<Rightarrow> (thrown + unit) \<times> ('w, 'h, 's) SQLite"
where
  "open ops filePath st =
     (case sqlite st of
        Some h \<Rightarrow> (Inr (), st)
      | None \<Rightarrow>
          (case db_open ops filePath (world st) of
             (Inl ex, w) \<Rightarrow> (Inl ex, native (NOpen filePath) w st)
           | (Inr h, w) \<Rightarrow> (Inr (), (native (NOpen filePath) w st)\<lparr>sqlite := Some h\<rparr>)))"

subsection \<open>prepare\<close>

text \<open>
  \<^verbatim>\<open>ex.message += ` (query: ${sql})`\<close>, done only for an \<^verbatim>\<open>Error\<close> instance.
\<close>

definition annotate :: "string \<Rightarrow> thrown \<Rightarrow> thrown" where
  "annotate sql ex =
     (case ex of
        JsError m \<Rightarrow> JsError (m @ '' (query: '' @ sql @ '')'')
      | JsOther v \<Rightarrow> JsOther v)"

text \<open>
  \<^verbatim>\<open>this.retryCounter[sql] < 5\<close>: \<^verbatim>\<open>undefined\<close> converts to \<^verbatim>\<open>NaN\<close>, and every
  comparison with \<^verbatim>\<open>NaN\<close> is false.
\<close>

definition lt5 :: "nat option \<Rightarrow> bool" where
  "lt5 c = (case c of None \<Rightarrow> False | Some n \<Rightarrow> n < 5)"

text \<open>\<^verbatim>\<open>this.retryCounter[sql] || 0\<close>: \<^verbatim>\<open>undefined\<close> and \<open>0\<close> are falsy.\<close>

definition or0 :: "nat option \<Rightarrow> nat" where
  "or0 c = (case c of None \<Rightarrow> 0 | Some n \<Rightarrow> (if n = 0 then 0 else n))"

function prepare ::
  "('w, 'h, 's, 'r) engine \<Rightarrow> string \<Rightarrow> ('w, 'h, 's) SQLite \<Rightarrow>
     (thrown + 's option) \<times> ('w, 'h, 's) SQLite"
where
  "prepare ops sql st =
     (case sqlite st of
        None \<Rightarrow> (Inl (JsError ''Database is not initialized.''), st)
      | Some h \<Rightarrow>
          (case preparedStatements st sql of
             Some cached \<Rightarrow> (Inr (Some cached), st)
           | None \<Rightarrow>
               (case db_prepare ops h sql (world st) of
                  (Inr None, w) \<Rightarrow> (Inr None, native (NCompile sql) w st)
                | (Inr (Some prepared), w) \<Rightarrow>
                    (Inr (Some prepared),
                     (native (NCompile sql) w st)
                       \<lparr>preparedStatements := (preparedStatements st)(sql \<mapsto> prepared),
                        retryCounter := (retryCounter st)(sql \<mapsto> 0)\<rparr>)
                | (Inl ex, w) \<Rightarrow>
                    (if lt5 (retryCounter st sql)
                     then prepare ops sql
                            ((native (NCompile sql) w st)
                               \<lparr>retryCounter :=
                                  (retryCounter st)(sql \<mapsto> or0 (retryCounter st sql) + 1)\<rparr>)
                     else (Inl (annotate sql ex),
                           (native (NCompile sql) w st)
                             \<lparr>retryCounter := (retryCounter st)(sql \<mapsto> 0)\<rparr>)))))"
  by pat_completeness auto
termination
  by (relation "measure (\<lambda>(ops, sql, st). case retryCounter st sql of None \<Rightarrow> 0 | Some n \<Rightarrow> 5 - n)")
     (auto simp: lt5_def or0_def native_def split: option.splits)

declare prepare.simps [simp del]

subsection \<open>isDatabaseReady\<close>

text \<open>
  The probe compiles \<^verbatim>\<open>SELECT 1;\<close> on the handle directly (not through the cache) and
  runs it without parameters. Every failure is swallowed: a throwing compilation, a
  falsy statement (calling \<^verbatim>\<open>run\<close> on it throws a \<^verbatim>\<open>TypeError\<close>) and a throwing
  run all give \<^verbatim>\<open>false\<close>.
\<close>

definition isDatabaseReady ::
  "('w, 'h, 's, 'r) engine \<Rightarrow> ('w, 'h, 's) SQLite \<Rightarrow> bool \<times> ('w, 'h, 's) SQLite"
where
  "isDatabaseReady ops st =
     (case sqlite st of
        None \<Rightarrow> (False, st)
      | Some h \<Rightarrow>
          (case db_prepare ops h ''SELECT 1;'' (world st) of
             (Inl ex, w) \<Rightarrow> (False, native (NCompile ''SELECT 1;'') w st)
           | (Inr None, w) \<Rightarrow> (False, native (NCompile ''SELECT 1;'') w st)
           | (Inr (Some p), w) \<Rightarrow>
               (case stmt_run ops p [] w of
                  (Inl ex, w') \<Rightarrow>
                    (False, native NRun w' (native (NCompile ''SELECT 1;'') w st))
                | (Inr rr, w') \<Rightarrow>
                    (True, native NRun w' (native (NCompile ''SELECT 1;'') w st)))))"

subsection \<open>exec\<close>

text \<open>
  \<^verbatim>\<open>changes !== undefined && changes !== null && !isNaN(changes) ? BigInt(changes) : undefined\<close>
  and the same for \<^verbatim>\<open>lastInsertRowid\<close>, which is passed through when it is a bigint.
  An absent field of the result and a field holding \<^verbatim>\<open>undefined\<close> are both \<open>None\<close>.
\<close>

definition numAffectedRows_of :: "js_number js_opt \<Rightarrow> thrown + int option" where
  "numAffectedRows_of c =
     (case c of
        Undefined \<Rightarrow> Inr None
      | Null \<Rightarrow> Inr None
      | Defined x \<Rightarrow>
          (if \<not> isNaN x
           then (case BigInt x of Inl ex \<Rightarrow> Inl ex | Inr n \<Rightarrow> Inr (Some n))
           else Inr None))"

definition insertId_of :: "rowid js_opt \<Rightarrow> thrown + int option" where
  "insertId_of l =
     (case l of
        Undefined \<Rightarrow> Inr None
      | Null \<Rightarrow> Inr None
      | Defined (RowidBigint n) \<Rightarrow> Inr (Some n)
      | Defined (RowidNumber x) \<Rightarrow>
          (case BigInt x of Inl ex \<Rightarrow> Inl ex | Inr n \<Rightarrow> Inr (Some n)))"

text \<open>The \<^verbatim>\<open>try\<close> block of \<^verbatim>\<open>exec\<close> with its \<^verbatim>\<open>catch\<close>.\<close>

definition exec_try ::
  "('w, 'h, 's, 'r) engine \<Rightarrow> 's \<Rightarrow> string \<Rightarrow> SQLiteCompatibleType list \<Rightarrow>
     ('w, 'h, 's) SQLite \<Rightarrow> (thrown + 'r QueryResult) \<times> ('w, 'h, 's) SQLite"
where
  "exec_try ops prepared sql parameters st =
     (if stmt_reader ops prepared
      then
        (case stmt_all ops prepared parameters (world st) of
           (Inl e, w) \<Rightarrow> (Inl (annotate sql e), native NAll w st)
         | (Inr rs, w) \<Rightarrow>
             (Inr \<lparr>rows = rs, numAffectedRows = None, insertId = None\<rparr>, native NAll w st))
      else
        (case stmt_run ops prepared parameters (world st) of
           (Inl e, w) \<Rightarrow> (Inl (annotate sql e), native NRun w st)
         | (Inr rr, w) \<Rightarrow>
             (case numAffectedRows_of (changes rr) of
                Inl e \<Rightarrow> (Inl (annotate sql e), native NRun w st)
              | Inr n \<Rightarrow>
                  (case insertId_of (lastInsertRowid rr) of
                     Inl e \<Rightarrow> (Inl (annotate sql e), native NRun w st)
                   | Inr i \<Rightarrow>
                       (Inr \<lparr>rows = [], numAffectedRows = n, insertId = i\<rparr>,
                        native NRun w st)))))"

text \<open>
  The \<^verbatim>\<open>finally\<close> block: it gets the outcome \<open>r\<close> of the \<^verbatim>\<open>try\<close> block and passes it
  on, unless one of the two loaders throws: a value thrown inside \<^verbatim>\<open>finally\<close>
  replaces the pending outcome.
\<close>

definition exec_finally ::
  "('w, 'h, 's, 'r) engine \<Rightarrow> (thrown + 'r QueryResult) \<Rightarrow> ('w, 'h, 's) SQLite \<Rightarrow>
     (thrown + 'r QueryResult) \<times> ('w, 'h, 's) SQLite"
where
  "exec_finally ops r st =
     (if extensionsLoaded st then (r, st)
      else
        (case isDatabaseReady ops st of
           (False, st1) \<Rightarrow> (r, st1)
         | (True, st1) \<Rightarrow>
             (case betterTrigram_load ops (sqlite st1) (world st1) of
                (Inl ex, w) \<Rightarrow> (Inl ex, native NLoadTrigram w st1)
              | (Inr u, w) \<Rightarrow>
                  (case fts5Html_load ops (sqlite st1) w of
                     (Inl ex, w') \<Rightarrow>
                       (Inl ex, native NLoadFts5Html w' (native NLoadTrigram w st1))
                   | (Inr u', w') \<Rightarrow>
                       (r, (native NLoadFts5Html w' (native NLoadTrigram w st1))
                             \<lparr>extensionsLoaded := True\<rparr>)))))"

text \<open>
  \<^verbatim>\<open>exec\<close>: the statement is resolved before the \<^verbatim>\<open>try\<close> block is entered, so a
  throwing \<^verbatim>\<open>prepare\<close> and a falsy statement leave \<^verbatim>\<open>exec\<close> without reaching
  \<^verbatim>\<open>finally\<close>.
\<close>

definition exec ::
  "('w, 'h, 's, 'r) engine \<Rightarrow> string \<Rightarrow> SQLiteCompatibleType list \<Rightarrow>
     ('w, 'h, 's) SQLite \<Rightarrow> (thrown + 'r QueryResult) \<times> ('w, 'h, 's) SQLite"
where
  "exec ops sql parameters st =
     (case prepare ops sql st of
        (Inl ex, st1) \<Rightarrow> (Inl ex, st1)
      | (Inr None, st1) \<Rightarrow> (Inr \<lparr>rows = [], numAffectedRows = None, insertId = None\<rparr>, st1)
      | (Inr (Some prepared), st1) \<Rightarrow>
          (case exec_try ops prepared sql parameters st1 of
             (r, st2) \<Rightarrow> exec_finally ops r st2))"

subsection \<open>run, close, delete\<close>

text \<open>An omitted \<^verbatim>\<open>parameters\<close> argument takes the default \<^verbatim>\<open>[]\<close> of \<^verbatim>\<open>exec\<close>.\<close>

definition run ::
  "('w, 'h, 's, 'r) engine \<Rightarrow> string \<Rightarrow> SQLiteCompatibleType list option \<Rightarrow>
     ('w, 'h, 's) SQLite \<Rightarrow> (thrown + 'r QueryResult) \<times> ('w, 'h, 's) SQLite"
where
  "run ops sql parameters st =
     (case sqlite st of
        None \<Rightarrow> (Inl (JsError ''No database is not opened.''), st)
      | Some h \<Rightarrow> exec ops sql (case parameters of None \<Rightarrow> [] | Some ps \<Rightarrow> ps) st)"

definition close ::
  "('w, 'h, 's, 'r) engine \<Rightarrow> ('w, 'h, 's) SQLite \<Rightarrow> ('w, 'h, 's) SQLite"
where
  "close ops st =
     (case sqlite st of
        None \<Rightarrow> st
      | Some h \<Rightarrow>
          (native NClose (db_close ops h (world st)) (st\<lparr>preparedStatements := Map.empty\<rparr>))
            \<lparr>sqlite := None\<rparr>)"

definition delete ::
  "('w, 'h, 's, 'r) engine \<Rightarrow> string \<Rightarrow> ('w, 'h, 's) SQLite \<Rightarrow>
     (thrown + unit) \<times> ('w, 'h, 's) SQLite"
where
  "delete ops filePath st =
     (let st1 = close ops st;
          options = \<lparr>force = True, maxRetries = 5, retryDelay = 500\<rparr>
      in case fs_rm ops filePath options (world st1) of
           (Inl ex, w) \<Rightarrow> (Inl ex, native (NRm filePath options) w st1)
         | (Inr u, w) \<Rightarrow> (Inr (), native (NRm filePath options) w st1))"

text \<open>A new instance: the field initialisers of the class, over a native state.\<close>

definition new_SQLite :: "'w \<Rightarrow> ('w, 'h, 's) SQLite" where
  "new_SQLite w =
     \<lparr>sqlite = None, initialized = False, preparedStatements = Map.empty,
      retryCounter = Map.empty, extensionsLoaded = False, world = w, calls = []\<rparr>"

subsection \<open>Sequences of calls, and what is read off the log\<close>

text \<open>
  A caller drives one instance by a sequence of method calls, each started when the
  previous one has settled. \<open>step\<close> is the state after one call, whatever its outcome.
\<close>

datatype api_call =
    Open string
  | Prepare string
  | Exec string "SQLiteCompatibleType list"
  | Run string "SQLiteCompatibleType list option"
  | Close
  | Delete string

fun step ::
  "('w, 'h, 's, 'r) engine \<Rightarrow> api_call \<Rightarrow> ('w, 'h, 's) SQLite \<Rightarrow> ('w, 'h, 's) SQLite"
where
  "step ops (Open filePath) st = snd (open ops filePath st)"
| "step ops (Prepare sql) st = snd (prepare ops sql st)"
| "step ops (Exec sql parameters) st = snd (exec ops sql parameters st)"
| "step ops (Run sql parameters) st = snd (run ops sql parameters st)"
| "step ops Close st = close ops st"
| "step ops (Delete filePath) st = snd (delete ops filePath st)"

fun steps ::
  "('w, 'h, 's, 'r) engine \<Rightarrow> api_call list \<Rightarrow> ('w, 'h, 's) SQLite \<Rightarrow> ('w, 'h, 's) SQLite"
where
  "steps ops [] st = st"
| "steps ops (c # cs) st = steps ops cs (step ops c st)"

definition keeps_connection :: "api_call \<Rightarrow> bool" where
  "keeps_connection c = (case c of Close \<Rightarrow> False | Delete filePath \<Rightarrow> False | _ \<Rightarrow> True)"

text \<open>The calls of the two extension loaders in a log.\<close>

definition load_events :: "native_call list \<Rightarrow> native_call list" where
  "load_events cs = filter (\<lambda>c. c = NLoadTrigram \<or> c = NLoadFts5Html) cs"

text \<open>
  The number of compilations \<^verbatim>\<open>prepare\<close> attempts when every one of them throws, from
  the retry count it finds for the text: the first attempt and the retries.
\<close>

definition attempts :: "nat option \<Rightarrow> nat" where
  "attempts c = (case c of None \<Rightarrow> 1 | Some n \<Rightarrow> Suc (5 - n))"

subsection \<open>A concrete native layer\<close>

text \<open>
  An engine to run the model on: the database answers \<^verbatim>\<open>SELECT 1;\<close> and executes
  statements once the key has been applied by \<^verbatim>\<open>PRAGMA key\<close>, until the handle is
  closed; the next \<open>flaky\<close> compilations of any other text throw. An \<^verbatim>\<open>UPDATE\<close>
  reports its row id as a number, any other writer as a bigint, and \<^verbatim>\<open>VACUUM\<close> reports
  neither a change count nor a row id.
\<close>

record demo_world =
  keyed :: bool
  flaky :: nat

definition demo :: "(demo_world, nat, string, string) engine" where
  "demo =
     \<lparr>db_open = (\<lambda>path w. (Inr 0, w)),
      db_prepare = (\<lambda>h sql w.
        if sql = ''SELECT 1;''
        then (if keyed w then (Inr (Some sql), w)
              else (Inl (JsError ''file is not a database''), w))
        else if 0 < flaky w then (Inl (JsError ''out of memory''), w\<lparr>flaky := flaky w - 1\<rparr>)
        else (Inr (Some sql), w)),
      db_close = (\<lambda>h w. w\<lparr>keyed := False\<rparr>),
      stmt_reader = (\<lambda>s. take 6 s = ''SELECT''),
      stmt_all = (\<lambda>s ps w.
        if keyed w then (Inr [s], w) else (Inl (JsError ''file is not a database''), w)),
      stmt_run = (\<lambda>s ps w.
        if take 10 s = ''PRAGMA key''
        then (Inr \<lparr>changes = Defined (Integral 0),
                   lastInsertRowid = Defined (RowidNumber (Integral 0))\<rparr>,
              w\<lparr>keyed := True\<rparr>)
        else if keyed w
        then (if take 6 s = ''UPDATE''
              then (Inr \<lparr>changes = Defined (Integral 3),
                         lastInsertRowid = Defined (RowidNumber (Integral 42))\<rparr>, w)
              else if take 6 s = ''VACUUM''
              then (Inr \<lparr>changes = Undefined, lastInsertRowid = Null\<rparr>, w)
              else (Inr \<lparr>changes = Defined (Integral 1),
                         lastInsertRowid = Defined (RowidBigint 7)\<rparr>, w))
        else (Inl (JsError ''file is not a database''), w)),
      betterTrigram_load = (\<lambda>h w. (Inr (), w)),
      fts5Html_load = (\<lambda>h w. (Inr (), w)),
      fs_rm = (\<lambda>path options w. (Inr (), w))\<rparr>"

text \<open>The same engine on a platform where the trigram extension cannot be loaded.\<close>

definition demo_noext :: "(demo_world, nat, string, string) engine" where
  "demo_noext =
     demo\<lparr>betterTrigram_load :=
            (\<lambda>h w. (Inl (JsError ''Loadable extension for sqlite-better-trigram not found''), w))\<rparr>"



text \<open>The same engine when every compilation throws.\<close>

definition demo_down :: "(demo_world, nat, string, string) engine" where
  "demo_down = demo\<lparr>db_prepare := (\<lambda>h sql w. (Inl (JsError ''out of memory''), w))\<rparr>"

text \<open>An instance after \<^verbatim>\<open>open("notes.db")\<close>.\<close>

definition demo_open :: "bool \<Rightarrow> nat \<Rightarrow> (demo_world, nat, string) SQLite" where
  "demo_open k n = snd (open demo ''notes.db'' (new_SQLite \<lparr>keyed = k, flaky = n\<rparr>))"

text \<open>The same instance after the key has been applied through \<^verbatim>\<open>exec\<close>.\<close>

definition demo_ready :: "(demo_world, nat, string) SQLite" where
  "demo_ready = snd (exec demo ''PRAGMA key = 1'' [] (demo_open False 0))"

subsection \<open>The equations of prepare, one per path\<close>

lemma prepare_closed:
  "sqlite st = None \<Longrightarrow> prepare ops sql st = (Inl (JsError ''Database is not initialized.''), st)"
  by (subst prepare.simps) simp

lemma prepare_hit:
  "sqlite st = Some h \<Longrightarrow> preparedStatements st sql = Some p \<Longrightarrow>
   prepare ops sql st = (Inr (Some p), st)"
  by (subst prepare.simps) simp

lemma prepare_undefined:
  "sqlite st = Some h \<Longrightarrow> preparedStatements st sql = None \<Longrightarrow>
   db_prepare ops h sql (world st) = (Inr None, w) \<Longrightarrow>
   prepare ops sql st = (Inr None, native (NCompile sql) w st)"
  by (subst prepare.simps) simp

lemma prepare_compiled:
  "sqlite st = Some h \<Longrightarrow> preparedStatements st sql = None \<Longrightarrow>
   db_prepare ops h sql (world st) = (Inr (Some p), w) \<Longrightarrow>
   prepare ops sql st =
     (Inr (Some p),
      (native (NCompile sql) w st)
        \<lparr>preparedStatements := (preparedStatements st)(sql \<mapsto> p),
         retryCounter := (retryCounter st)(sql \<mapsto> 0)\<rparr>)"
  by (subst prepare.simps) simp

lemma prepare_retry:
  "sqlite st = Some h \<Longrightarrow> preparedStatements st sql = None \<Longrightarrow>
   db_prepare ops h sql (world st) = (Inl ex, w) \<Longrightarrow> lt5 (retryCounter st sql) \<Longrightarrow>
   prepare ops sql st =
     prepare ops sql ((native (NCompile sql) w st)
        \<lparr>retryCounter := (retryCounter st)(sql \<mapsto> or0 (retryCounter st sql) + 1)\<rparr>)"
  by (subst prepare.simps) simp

lemma prepare_giveup:
  "sqlite st = Some h \<Longrightarrow> preparedStatements st sql = None \<Longrightarrow>
   db_prepare ops h sql (world st) = (Inl ex, w) \<Longrightarrow> \<not> lt5 (retryCounter st sql) \<Longrightarrow>
   prepare ops sql st =
     (Inl (annotate sql ex), (native (NCompile sql) w st)\<lparr>retryCounter := (retryCounter st)(sql \<mapsto> 0)\<rparr>)"
  by (subst prepare.simps) simp

lemma prepare_outcome_induct [case_names closed hit undefined compiled giveup retry]:
  assumes closed: "\<And>st. sqlite st = None \<Longrightarrow>
      P st (Inl (JsError ''Database is not initialized.''), st)"
    and hit: "\<And>st h p. sqlite st = Some h \<Longrightarrow> preparedStatements st sql = Some p \<Longrightarrow>
      P st (Inr (Some p), st)"
    and undefined: "\<And>st h w. sqlite st = Some h \<Longrightarrow> preparedStatements st sql = None \<Longrightarrow>
      db_prepare ops h sql (world st) = (Inr None, w) \<Longrightarrow>
      P st (Inr None, native (NCompile sql) w st)"
    and compiled: "\<And>st h p w. sqlite st = Some h \<Longrightarrow> preparedStatements st sql = None \<Longrightarrow>
      db_prepare ops h sql (world st) = (Inr (Some p), w) \<Longrightarrow>
      P st (Inr (Some p),
            (native (NCompile sql) w st)
              \<lparr>preparedStatements := (preparedStatements st)(sql \<mapsto> p),
               retryCounter := (retryCounter st)(sql \<mapsto> 0)\<rparr>)"
    and giveup: "\<And>st h ex w. sqlite st = Some h \<Longrightarrow> preparedStatements st sql = None \<Longrightarrow>
      db_prepare ops h sql (world st) = (Inl ex, w) \<Longrightarrow> \<not> lt5 (retryCounter st sql) \<Longrightarrow>
      P st (Inl (annotate sql ex),
            (native (NCompile sql) w st)\<lparr>retryCounter := (retryCounter st)(sql \<mapsto> 0)\<rparr>)"
    and retry: "\<And>st h ex w res. sqlite st = Some h \<Longrightarrow> preparedStatements st sql = None \<Longrightarrow>
      db_prepare ops h sql (world st) = (Inl ex, w) \<Longrightarrow> lt5 (retryCounter st sql) \<Longrightarrow>
      P ((native (NCompile sql) w st)
           \<lparr>retryCounter := (retryCounter st)(sql \<mapsto> or0 (retryCounter st sql) + 1)\<rparr>) res \<Longrightarrow>
      P st res"
  shows "P st (prepare ops sql st)"
proof (induction "case retryCounter st sql of None \<Rightarrow> 0 | Some n \<Rightarrow> 5 - n"
         arbitrary: st rule: less_induct)
  case less
  show ?case
  proof (cases "sqlite st")
    case None
    then show ?thesis by (simp add: prepare_closed closed)
  next
    case (Some h)
    note open_h = this
    show ?thesis
    proof (cases "preparedStatements st sql")
      case (Some p)
      show ?thesis
        using hit [OF open_h Some] by (simp add: prepare_hit [OF open_h Some])
    next
      case None
      note miss = this
      obtain r w where dp: "db_prepare ops h sql (world st) = (r, w)"
        by (cases "db_prepare ops h sql (world st)")
      show ?thesis
      proof (cases r)
        case (Inr po)
        show ?thesis
        proof (cases po)
          case None
          with dp Inr have dp': "db_prepare ops h sql (world st) = (Inr None, w)" by simp
          show ?thesis
            using undefined [OF open_h miss dp'] by (simp add: prepare_undefined [OF open_h miss dp'])
        next
          case (Some p)
          with dp Inr have dp': "db_prepare ops h sql (world st) = (Inr (Some p), w)" by simp
          show ?thesis
            using compiled [OF open_h miss dp'] by (simp add: prepare_compiled [OF open_h miss dp'])
        qed
      next
        case (Inl ex)
        with dp have dp': "db_prepare ops h sql (world st) = (Inl ex, w)" by simp
        show ?thesis
        proof (cases "lt5 (retryCounter st sql)")
          case False
          show ?thesis
            using giveup [OF open_h miss dp' False]
            by (simp add: prepare_giveup [OF open_h miss dp' False])
        next
          case True
          have "P ((native (NCompile sql) w st)
                  \<lparr>retryCounter := (retryCounter st)(sql \<mapsto> or0 (retryCounter st sql) + 1)\<rparr>)
                  (prepare ops sql ((native (NCompile sql) w st)
                  \<lparr>retryCounter := (retryCounter st)(sql \<mapsto> or0 (retryCounter st sql) + 1)\<rparr>))"
            using True by (intro less.hyps) (auto simp: lt5_def or0_def native_def split: option.splits)
          then have "P st (prepare ops sql ((native (NCompile sql) w st)
                  \<lparr>retryCounter := (retryCounter st)(sql \<mapsto> or0 (retryCounter st sql) + 1)\<rparr>))"
            by (rule retry [OF open_h miss dp' True])
          then show ?thesis
            by (simp add: prepare_retry [OF open_h miss dp' True])
        qed
      qed
    qed
  qed
qed


subsection \<open>What prepare leaves unchanged, and what it returns\<close>

lemma load_events_append [simp]: "load_events (xs @ ys) = load_events xs @ load_events ys"
  by (simp add: load_events_def)

lemma load_events_simps [simp]:
  "load_events [] = []"
  "load_events (NOpen p # cs) = load_events cs"
  "load_events (NCompile s # cs) = load_events cs"
  "load_events (NAll # cs) = load_events cs"
  "load_events (NRun # cs) = load_events cs"
  "load_events (NClose # cs) = load_events cs"
  "load_events (NRm p opts # cs) = load_events cs"
  "load_events (NLoadTrigram # cs) = NLoadTrigram # load_events cs"
  "load_events (NLoadFts5Html # cs) = NLoadFts5Html # load_events cs"
  by (simp_all add: load_events_def)

lemma load_events_replicate_compile [simp]:
  "load_events (replicate n (NCompile s)) = []"
  by (induction n) simp_all

lemma native_fields [simp]:
  "sqlite (native c w st) = sqlite st"
  "initialized (native c w st) = initialized st"
  "preparedStatements (native c w st) = preparedStatements st"
  "retryCounter (native c w st) = retryCounter st"
  "extensionsLoaded (native c w st) = extensionsLoaded st"
  "world (native c w st) = w"
  "calls (native c w st) = calls st @ [c]"
  by (simp_all add: native_def)

lemma prepare_frame:
  "sqlite (snd (prepare ops sql st)) = sqlite st \<and>
   extensionsLoaded (snd (prepare ops sql st)) = extensionsLoaded st \<and>
   initialized (snd (prepare ops sql st)) = initialized st \<and>
   (\<forall>k. k \<noteq> sql \<longrightarrow>
      preparedStatements (snd (prepare ops sql st)) k = preparedStatements st k \<and>
      retryCounter (snd (prepare ops sql st)) k = retryCounter st k) \<and>
   (\<exists>n. calls (snd (prepare ops sql st)) = calls st @ replicate n (NCompile sql))"
proof (rule prepare_outcome_induct [where P = "\<lambda>st res.
   sqlite (snd res) = sqlite st \<and>
   extensionsLoaded (snd res) = extensionsLoaded st \<and>
   initialized (snd res) = initialized st \<and>
   (\<forall>k. k \<noteq> sql \<longrightarrow>
      preparedStatements (snd res) k = preparedStatements st k \<and>
      retryCounter (snd res) k = retryCounter st k) \<and>
   (\<exists>n. calls (snd res) = calls st @ replicate n (NCompile sql))"], goal_cases)
  case (1 st)
  show ?case by (simp add: exI [of _ 0])
next
  case (2 st h p)
  show ?case by (simp add: exI [of _ 0])
next
  case (3 st h w)
  show ?case by (simp add: exI [of _ 1])
next
  case (4 st h p w)
  show ?case by (simp add: exI [of _ 1])
next
  case (5 st h ex w)
  show ?case by (simp add: exI [of _ 1])
next
  case (6 st h ex w res)
  from 6(5) obtain n where
    n: "calls (snd res) = (calls st @ [NCompile sql]) @ replicate n (NCompile sql)"
    by auto
  have "calls (snd res) = calls st @ replicate (Suc n) (NCompile sql)"
    using n by simp
  then have "\<exists>m. calls (snd res) = calls st @ replicate m (NCompile sql)" by blast
  with 6(5) show ?case by simp
qed

lemma prepare_returns_cached:
  "prepare ops sql st = (Inr (Some p), st') \<Longrightarrow> preparedStatements st' sql = Some p"
proof -
  have "\<forall>p. fst (prepare ops sql st) = Inr (Some p) \<longrightarrow>
          preparedStatements (snd (prepare ops sql st)) sql = Some p"
    by (rule prepare_outcome_induct [where P = "\<lambda>st res.
          \<forall>p. fst res = Inr (Some p) \<longrightarrow> preparedStatements (snd res) sql = Some p"])
       simp_all
  then show "prepare ops sql st = (Inr (Some p), st') \<Longrightarrow> preparedStatements st' sql = Some p"
    by simp
qed

lemma prepare_error_annotated:
  "prepare ops sql st = (Inl e, st') \<Longrightarrow> sqlite st = Some h \<Longrightarrow>
   (\<exists>e0 w w'. db_prepare ops h sql w = (Inl e0, w') \<and> e = annotate sql e0) \<and>
   retryCounter st' sql = Some 0"
proof -
  have "\<forall>e. fst (prepare ops sql st) = Inl e \<longrightarrow> sqlite st = Some h \<longrightarrow>
          (\<exists>e0 w w'. db_prepare ops h sql w = (Inl e0, w') \<and> e = annotate sql e0) \<and>
          retryCounter (snd (prepare ops sql st)) sql = Some 0"
    by (rule prepare_outcome_induct [where P = "\<lambda>st res.
          \<forall>e. fst res = Inl e \<longrightarrow> sqlite st = Some h \<longrightarrow>
          (\<exists>e0 w w'. db_prepare ops h sql w = (Inl e0, w') \<and> e = annotate sql e0) \<and>
          retryCounter (snd res) sql = Some 0"])
       (auto)
  then show "prepare ops sql st = (Inl e, st') \<Longrightarrow> sqlite st = Some h \<Longrightarrow> ?thesis"
    by simp
qed


lemma prepare_all_fail:
  assumes fail: "\<And>w. \<exists>e w'. db_prepare ops h sql w = (Inl e, w')"
  shows "sqlite st = Some h \<longrightarrow> preparedStatements st sql = None \<longrightarrow>
     (\<exists>e. fst (prepare ops sql st) = Inl e) \<and>
     calls (snd (prepare ops sql st)) =
       calls st @ replicate (attempts (retryCounter st sql)) (NCompile sql) \<and>
     retryCounter (snd (prepare ops sql st)) sql = Some 0"
proof (rule prepare_outcome_induct [where P = "\<lambda>st res.
     sqlite st = Some h \<longrightarrow> preparedStatements st sql = None \<longrightarrow>
     (\<exists>e. fst res = Inl e) \<and>
     calls (snd res) = calls st @ replicate (attempts (retryCounter st sql)) (NCompile sql) \<and>
     retryCounter (snd res) sql = Some 0"], goal_cases)
  case (1 st)
  show ?case using 1 by simp
next
  case (2 st h p)
  show ?case using 2 by simp
next
  case (3 st h' w)
  show ?case using 3 fail [of "world st"] by auto
next
  case (4 st h' p w)
  show ?case using 4 fail [of "world st"] by auto
next
  case (5 st h' ex w)
  show ?case using 5 by (auto simp: lt5_def attempts_def split: option.splits)
next
  case (6 st h' ex w res)
  from 6(4) obtain n where n: "retryCounter st sql = Some n" "n < 5"
    by (auto simp: lt5_def split: option.splits)
  have "5 - n = Suc (5 - Suc n)" using n by arith
  then have "[NCompile sql] @ replicate (Suc (5 - Suc n)) (NCompile sql)
      = replicate (Suc (5 - n)) (NCompile sql)" by simp
  with 6 n show ?case
    by (auto simp: or0_def attempts_def simp del: replicate_Suc replicate.simps)
qed

lemma demo_open_eq:
  "demo_open k n =
    \<lparr>sqlite = Some 0, initialized = False, preparedStatements = Map.empty,
      retryCounter = Map.empty, extensionsLoaded = False, world = \<lparr>keyed = k, flaky = n\<rparr>,
      calls = [NOpen ''notes.db'']\<rparr>"
  by (simp add: demo_open_def open_def new_SQLite_def demo_def native_def)

subsection \<open>open on an open instance\<close>

text \<open>
  C7. When a handle is already open, \<^verbatim>\<open>open(path)\<close> returns without throwing and the
  state after the call is the state before it: the handle, the statement cache, the retry
  counters and the extension flag are the same, and no native call is issued.
\<close>

theorem open_already_open:
  "sqlite st = Some h \<Longrightarrow> open ops filePath st = (Inr (), st)"
  by (simp add: open_def)

theorem open_already_open_witness:
  "sqlite (demo_open True 0) = Some 0 \<and>
   open demo ''other.db'' (demo_open True 0) = (Inr (), demo_open True 0)"
  using open_already_open [of "demo_open True 0" 0 demo "''other.db''"]
  by (simp add: demo_open_eq)

subsection \<open>The retry bound of prepare\<close>

text \<open>
  C1. The claim: when every compilation of a text throws, \<^verbatim>\<open>prepare\<close> retries
  exactly 5 times before the error is surfaced. On an instance that has never prepared
  the text, the count read by \<^verbatim>\<open>this.retryCounter[sql] < 5\<close> is \<^verbatim>\<open>undefined\<close>, the
  comparison is false, and the first failure is surfaced at once: the log holds one
  compilation and no retry. The count is 0 afterwards.
\<close>

theorem prepare_first_failure_not_retried:
  "fst (prepare demo_down ''SELECT title FROM notes'' (demo_open True 0)) =
     Inl (JsError ''out of memory (query: SELECT title FROM notes)'') \<and>
   calls (snd (prepare demo_down ''SELECT title FROM notes'' (demo_open True 0))) =
     [NOpen ''notes.db'', NCompile ''SELECT title FROM notes''] \<and>
   retryCounter (snd (prepare demo_down ''SELECT title FROM notes'' (demo_open True 0)))
     ''SELECT title FROM notes'' = Some 0"
  by (simp add: demo_open_eq prepare.simps demo_down_def demo_def native_def annotate_def
      lt5_def or0_def)

text \<open>
  The same call made again finds the count 0 and does retry: six compilations follow the
  first one in the log.
\<close>

lemma prepare_second_failure_retried:
  "calls (steps demo_down
            [Prepare ''SELECT title FROM notes'', Prepare ''SELECT title FROM notes'']
            (demo_open True 0)) =
     NOpen ''notes.db'' # replicate 7 (NCompile ''SELECT title FROM notes'')"
  by (simp add: demo_open_eq prepare.simps demo_down_def demo_def native_def annotate_def
      lt5_def or0_def numeral_eq_Suc)

text \<open>
  The general count, \<open>prepare_all_fail\<close>, on this engine from a count of 0: six
  compilations, that is five retries, and the count is 0 again.
\<close>

lemma prepare_all_fail_from_zero:
  "(\<exists>e. fst (prepare demo_down ''SELECT title FROM notes''
             ((demo_open True 0)\<lparr>retryCounter := [''SELECT title FROM notes'' \<mapsto> 0]\<rparr>)) = Inl e) \<and>
   calls (snd (prepare demo_down ''SELECT title FROM notes''
             ((demo_open True 0)\<lparr>retryCounter := [''SELECT title FROM notes'' \<mapsto> 0]\<rparr>))) =
     NOpen ''notes.db'' # replicate 6 (NCompile ''SELECT title FROM notes'') \<and>
   retryCounter (snd (prepare demo_down ''SELECT title FROM notes''
             ((demo_open True 0)\<lparr>retryCounter := [''SELECT title FROM notes'' \<mapsto> 0]\<rparr>)))
     ''SELECT title FROM notes'' = Some 0"
proof -
  have down: "\<And>w. \<exists>e w'. db_prepare demo_down 0 ''SELECT title FROM notes'' w = (Inl e, w')"
    by (simp add: demo_down_def demo_def)
  from prepare_all_fail [of demo_down 0 "''SELECT title FROM notes''"
      "(demo_open True 0)\<lparr>retryCounter := [''SELECT title FROM notes'' \<mapsto> 0]\<rparr>", OF down]
  show ?thesis by (simp add: demo_open_eq attempts_def)
qed

subsection \<open>What exec leaves unchanged\<close>

lemma prepare_keeps_entry:
  "preparedStatements st k = Some p \<Longrightarrow> preparedStatements (snd (prepare ops sql st)) k = Some p"
proof (cases "k = sql")
  case False
  then show "preparedStatements st k = Some p \<Longrightarrow> ?thesis"
    using prepare_frame [of ops sql st] by simp
next
  case True
  assume p: "preparedStatements st k = Some p"
  show ?thesis
  proof (cases "sqlite st")
    case None
    then show ?thesis using p by (simp add: prepare_closed)
  next
    case (Some h)
    then show ?thesis using p True by (simp add: prepare_hit [OF Some])
  qed
qed

lemma isDatabaseReady_frame:
  "sqlite (snd (isDatabaseReady ops st)) = sqlite st \<and>
   initialized (snd (isDatabaseReady ops st)) = initialized st \<and>
   preparedStatements (snd (isDatabaseReady ops st)) = preparedStatements st \<and>
   retryCounter (snd (isDatabaseReady ops st)) = retryCounter st \<and>
   extensionsLoaded (snd (isDatabaseReady ops st)) = extensionsLoaded st \<and>
   load_events (calls (snd (isDatabaseReady ops st))) = load_events (calls st)"
  by (simp add: isDatabaseReady_def split: option.splits prod.splits sum.splits)

lemma exec_try_frame:
  "sqlite (snd (exec_try ops p sql ps st)) = sqlite st \<and>
   initialized (snd (exec_try ops p sql ps st)) = initialized st \<and>
   preparedStatements (snd (exec_try ops p sql ps st)) = preparedStatements st \<and>
   retryCounter (snd (exec_try ops p sql ps st)) = retryCounter st \<and>
   extensionsLoaded (snd (exec_try ops p sql ps st)) = extensionsLoaded st \<and>
   load_events (calls (snd (exec_try ops p sql ps st))) = load_events (calls st)"
  by (simp add: exec_try_def split: option.splits prod.splits sum.splits)

lemma exec_finally_frame:
  "sqlite (snd (exec_finally ops r st)) = sqlite st \<and>
   initialized (snd (exec_finally ops r st)) = initialized st \<and>
   preparedStatements (snd (exec_finally ops r st)) = preparedStatements st \<and>
   retryCounter (snd (exec_finally ops r st)) = retryCounter st \<and>
   (extensionsLoaded st \<longrightarrow> extensionsLoaded (snd (exec_finally ops r st)))"
  using isDatabaseReady_frame [of ops st]
  by (auto simp add: exec_finally_def split: option.splits prod.splits sum.splits bool.splits)

subsection \<open>The statement cache\<close>

lemma exec_after_prepare:
  "sqlite (snd (exec ops sql ps st)) = sqlite st \<and>
   preparedStatements (snd (exec ops sql ps st)) = preparedStatements (snd (prepare ops sql st)) \<and>
   retryCounter (snd (exec ops sql ps st)) = retryCounter (snd (prepare ops sql st))"
proof -
  obtain r1 st1 where p: "prepare ops sql st = (r1, st1)" by (cases "prepare ops sql st")
  note f1 = prepare_frame [of ops sql st, unfolded p, simplified]
  show ?thesis
  proof (cases r1)
    case (Inl e)
    with p f1 show ?thesis by (simp add: exec_def)
  next
    case (Inr po)
    show ?thesis
    proof (cases po)
      case None
      with p f1 Inr show ?thesis by (simp add: exec_def)
    next
      case (Some q)
      obtain r2 st2 where t: "exec_try ops q sql ps st1 = (r2, st2)"
        by (cases "exec_try ops q sql ps st1")
      note f2 = exec_try_frame [of ops q sql ps st1, unfolded t, simplified]
      note f3 = exec_finally_frame [of ops r2 st2]
      from p Inr Some t have "exec ops sql ps st = exec_finally ops r2 st2"
        by (simp add: exec_def)
      with p f1 f2 f3 show ?thesis by simp
    qed
  qed
qed

lemma step_keeps_entry:
  assumes "keeps_connection c" and "sqlite st = Some h" and "preparedStatements st k = Some p"
  shows "sqlite (step ops c st) = Some h \<and> preparedStatements (step ops c st) k = Some p"
proof (cases c)
  case (Open filePath)
  with assms show ?thesis by (simp add: open_def)
next
  case (Prepare sql)
  with assms show ?thesis
    using prepare_frame [of ops sql st] prepare_keeps_entry [of st k p ops sql] by simp
next
  case (Exec sql ps)
  with assms show ?thesis
    using exec_after_prepare [of ops sql ps st] prepare_keeps_entry [of st k p ops sql] by simp
next
  case (Run sql pso)
  with assms show ?thesis
    using exec_after_prepare [of ops sql "case pso of None \<Rightarrow> [] | Some ps \<Rightarrow> ps" st]
      prepare_keeps_entry [of st k p ops sql]
    by (simp add: run_def)
next
  case Close
  with assms show ?thesis by (simp add: keeps_connection_def)
next
  case (Delete filePath)
  with assms show ?thesis by (simp add: keeps_connection_def)
qed

lemma steps_keep_entry:
  "list_all keeps_connection cs \<Longrightarrow> sqlite st = Some h \<Longrightarrow> preparedStatements st k = Some p \<Longrightarrow>
   sqlite (steps ops cs st) = Some h \<and> preparedStatements (steps ops cs st) k = Some p"
proof (induction cs arbitrary: st)
  case Nil
  then show ?case by simp
next
  case (Cons c cs)
  from Cons.prems have kc: "keeps_connection c" and rest: "list_all keeps_connection cs"
    by simp_all
  from step_keeps_entry [OF kc Cons.prems(2) Cons.prems(3), of ops]
  have "sqlite (step ops c st) = Some h" "preparedStatements (step ops c st) k = Some p"
    by simp_all
  from Cons.IH [OF rest this] show ?case by simp
qed

lemma prepare_success_open:
  "prepare ops sql st = (Inr po, st') \<Longrightarrow> \<exists>h. sqlite st = Some h"
  by (cases "sqlite st") (simp_all add: prepare_closed)

text \<open>
  C4. After \<^verbatim>\<open>prepare(s)\<close> has returned a compiled statement, a later \<^verbatim>\<open>prepare(s)\<close>
  on the same open connection (after any calls other than \<^verbatim>\<open>close\<close> and
  \<^verbatim>\<open>delete\<close>) returns that same statement and leaves the state as it finds it, so it
  compiles nothing. The cache is a map from SQL text, so it holds one compiled form per
  text.
\<close>

theorem prepare_again_returns_cached:
  assumes first: "prepare ops sql st = (Inr (Some p), st1)"
    and same_connection: "list_all keeps_connection cs"
  shows "prepare ops sql (steps ops cs st1) = (Inr (Some p), steps ops cs st1)"
proof -
  from prepare_success_open [OF first] obtain h where h: "sqlite st = Some h" ..
  from prepare_frame [of ops sql st] first h have h1: "sqlite st1 = Some h" by simp
  from prepare_returns_cached [OF first] have c1: "preparedStatements st1 sql = Some p" .
  from steps_keep_entry [OF same_connection h1 c1, of ops]
  have "sqlite (steps ops cs st1) = Some h" "preparedStatements (steps ops cs st1) sql = Some p"
    by simp_all
  then show ?thesis by (rule prepare_hit)
qed

theorem prepare_again_returns_cached_witness:
  "fst (prepare demo ''SELECT title FROM notes'' (demo_open True 0)) =
     Inr (Some ''SELECT title FROM notes'') \<and>
   list_all keeps_connection [Exec ''SELECT body FROM notes'' [], Prepare ''DELETE FROM notes''] \<and>
   prepare demo ''SELECT title FROM notes''
     (steps demo [Exec ''SELECT body FROM notes'' [], Prepare ''DELETE FROM notes'']
        (snd (prepare demo ''SELECT title FROM notes'' (demo_open True 0)))) =
     (Inr (Some ''SELECT title FROM notes''),
      steps demo [Exec ''SELECT body FROM notes'' [], Prepare ''DELETE FROM notes'']
        (snd (prepare demo ''SELECT title FROM notes'' (demo_open True 0))))"
proof -
  have r1: "fst (prepare demo ''SELECT title FROM notes'' (demo_open True 0)) =
      Inr (Some ''SELECT title FROM notes'')"
    by (simp add: demo_open_eq prepare.simps demo_def)
  then have r: "prepare demo ''SELECT title FROM notes'' (demo_open True 0) =
      (Inr (Some ''SELECT title FROM notes''),
       snd (prepare demo ''SELECT title FROM notes'' (demo_open True 0)))"
    by (simp add: prod_eq_iff)
  have k: "list_all keeps_connection
      [Exec ''SELECT body FROM notes'' [], Prepare ''DELETE FROM notes'']"
    by (simp add: keeps_connection_def)
  from prepare_again_returns_cached [OF r k] r1 k show ?thesis by simp
qed

subsection \<open>The result of exec\<close>

lemmas run_model =
  exec_def exec_try_def exec_finally_def isDatabaseReady_def prepare.simps run_def close_def
  delete_def open_def native_def annotate_def lt5_def or0_def numAffectedRows_of_def
  insertId_of_def BigInt_def isNaN_def demo_def demo_open_eq

lemma exec_finally_outcome:
  assumes "exec_finally ops r st = (r', st')"
  shows "r' = r \<or>
    (\<exists>e w w'. r' = Inl e \<and>
       (betterTrigram_load ops (sqlite st) w = (Inl e, w') \<or>
        fts5Html_load ops (sqlite st) w = (Inl e, w')))"
proof -
  note f = isDatabaseReady_frame [of ops st]
  show ?thesis
    using assms f
    by (auto simp add: exec_finally_def split: if_splits prod.splits bool.splits sum.splits)
qed

lemma exec_finally_Inr:
  "exec_finally ops r st = (Inr res, st') \<Longrightarrow> r = Inr res"
  using exec_finally_outcome [of ops r st "Inr res" st'] by auto

lemma exec_Inr:
  assumes "exec ops sql ps st = (Inr res, st')" and "prepare ops sql st = (Inr (Some p), st1)"
  shows "\<exists>st2. exec_try ops p sql ps st1 = (Inr res, st2)"
proof -
  obtain r2 st2 where t: "exec_try ops p sql ps st1 = (r2, st2)"
    by (cases "exec_try ops p sql ps st1")
  with assms have "exec_finally ops r2 st2 = (Inr res, st')" by (simp add: exec_def)
  then have "r2 = Inr res" by (rule exec_finally_Inr)
  with t show ?thesis by simp
qed

lemma exec_try_reader:
  assumes "exec_try ops p sql ps st = (Inr res, st2)" and "stmt_reader ops p"
  shows "(\<exists>w. stmt_all ops p ps (world st) = (Inr (rows res), w)) \<and>
         numAffectedRows res = None \<and> insertId res = None"
  using assms by (auto simp add: exec_try_def split: prod.splits sum.splits)

lemma exec_try_writer:
  assumes "exec_try ops p sql ps st = (Inr res, st2)" and "\<not> stmt_reader ops p"
  shows "\<exists>rr w. stmt_run ops p ps (world st) = (Inr rr, w) \<and> rows res = [] \<and>
           numAffectedRows_of (changes rr) = Inr (numAffectedRows res) \<and>
           insertId_of (lastInsertRowid rr) = Inr (insertId res)"
  using assms by (auto simp add: exec_try_def split: prod.splits sum.splits)

lemma numAffectedRows_of_Inr:
  assumes "numAffectedRows_of c = Inr a"
  shows "(a \<noteq> None) = (\<exists>x. c = Defined x \<and> \<not> isNaN x) \<and>
         (\<forall>n. a = Some n \<longrightarrow> c = Defined (Integral n))"
  using assms
  by (cases c; auto simp add: numAffectedRows_of_def isNaN_def BigInt_def
        split: if_splits sum.splits js_number.splits)

lemma exec_resolved:
  assumes "prepare ops sql st = (Inr (Some p), st1)"
  shows "exec ops sql ps st =
           exec_finally ops (fst (exec_try ops p sql ps st1)) (snd (exec_try ops p sql ps st1))"
  using assms by (simp add: exec_def split: prod.splits)

lemma exec_try_reader_returns:
  assumes "stmt_reader ops p" and "stmt_all ops p ps (world st) = (Inr rs, w)"
  shows "exec_try ops p sql ps st =
           (Inr \<lparr>rows = rs, numAffectedRows = None, insertId = None\<rparr>, native NAll w st)"
  using assms by (simp add: exec_try_def)

lemma exec_try_writer_returns:
  assumes "\<not> stmt_reader ops p" and "stmt_run ops p ps (world st) = (Inr rr, w)"
    and "numAffectedRows_of (changes rr) = Inr a" and "insertId_of (lastInsertRowid rr) = Inr i"
  shows "exec_try ops p sql ps st =
           (Inr \<lparr>rows = [], numAffectedRows = a, insertId = i\<rparr>, native NRun w st)"
  using assms by (simp add: exec_try_def)

lemma exec_try_writer_id_throws:
  assumes "\<not> stmt_reader ops p" and "stmt_run ops p ps (world st) = (Inr rr, w)"
    and "numAffectedRows_of (changes rr) = Inr a" and "insertId_of (lastInsertRowid rr) = Inl e"
  shows "exec_try ops p sql ps st = (Inl (annotate sql e), native NRun w st)"
  using assms by (simp add: exec_try_def)

lemma numAffectedRows_of_values:
  "numAffectedRows_of (Defined (Integral n)) = Inr (Some n)"
  "numAffectedRows_of (Defined NaN) = Inr None"
  "numAffectedRows_of Undefined = Inr None"
  "numAffectedRows_of Null = Inr None"
  by (simp_all add: numAffectedRows_of_def isNaN_def BigInt_def)

lemma insertId_of_values:
  "insertId_of (Defined (RowidBigint n)) = Inr (Some n)"
  "insertId_of (Defined (RowidNumber (Integral n))) = Inr (Some n)"
  "insertId_of Undefined = Inr None"
  "insertId_of Null = Inr None"
  by (simp_all add: insertId_of_def BigInt_def)

lemma insertId_of_throws:
  "\<forall>n. x \<noteq> Integral n \<Longrightarrow> \<exists>e. insertId_of (Defined (RowidNumber x)) = Inl e"
  by (cases x) (simp_all add: insertId_of_def BigInt_def)

lemma exec_finally_loaded:
  "extensionsLoaded st \<Longrightarrow> exec_finally ops r st = (r, st)"
  by (simp add: exec_finally_def)

text \<open>
  C5. For a compiled statement. A reader: when \<^verbatim>\<open>all\<close> returns rows, the \<^verbatim>\<open>try\<close>
  block ends with a result holding exactly these rows and neither an affected count nor an
  insert id, and \<^verbatim>\<open>exec\<close> is the \<^verbatim>\<open>finally\<close> block run on that outcome; every result
  \<^verbatim>\<open>exec\<close> returns for a reader is of this shape. A writer: when \<^verbatim>\<open>run\<close> returns
  (and the row id converts), the result has no rows, and its affected count is the integer
  of the change count when that is a defined number other than \<^verbatim>\<open>NaN\<close>, and is absent
  when the change count is \<^verbatim>\<open>undefined\<close>, \<^verbatim>\<open>null\<close> or \<^verbatim>\<open>NaN\<close>; every result
  \<^verbatim>\<open>exec\<close> returns for a writer is of this shape. Once the flag is set the
  \<^verbatim>\<open>finally\<close> block passes the outcome on unchanged.
\<close>

theorem exec_result_shape:
  assumes "prepare ops sql st = (Inr (Some p), st1)"
  shows "(stmt_reader ops p \<longrightarrow>
            (\<forall>rs w. stmt_all ops p ps (world st1) = (Inr rs, w) \<longrightarrow>
               exec ops sql ps st =
                 exec_finally ops (Inr \<lparr>rows = rs, numAffectedRows = None, insertId = None\<rparr>)
                   (native NAll w st1)) \<and>
            (\<forall>res st'. exec ops sql ps st = (Inr res, st') \<longrightarrow>
               (\<exists>w. stmt_all ops p ps (world st1) = (Inr (rows res), w)) \<and>
               numAffectedRows res = None \<and> insertId res = None)) \<and>
         (\<not> stmt_reader ops p \<longrightarrow>
            (\<forall>rr w i. stmt_run ops p ps (world st1) = (Inr rr, w) \<and>
                 insertId_of (lastInsertRowid rr) = Inr i \<longrightarrow>
               (\<forall>n. changes rr = Defined (Integral n) \<longrightarrow>
                  exec ops sql ps st =
                    exec_finally ops (Inr \<lparr>rows = [], numAffectedRows = Some n, insertId = i\<rparr>)
                      (native NRun w st1)) \<and>
               (changes rr = Undefined \<or> changes rr = Null \<or> changes rr = Defined NaN \<longrightarrow>
                  exec ops sql ps st =
                    exec_finally ops (Inr \<lparr>rows = [], numAffectedRows = None, insertId = i\<rparr>)
                      (native NRun w st1))) \<and>
            (\<forall>res st'. exec ops sql ps st = (Inr res, st') \<longrightarrow>
               rows res = [] \<and>
               (\<exists>rr w. stmt_run ops p ps (world st1) = (Inr rr, w) \<and>
                  (numAffectedRows res \<noteq> None) = (\<exists>x. changes rr = Defined x \<and> \<not> isNaN x) \<and>
                  (\<forall>n. numAffectedRows res = Some n \<longrightarrow> changes rr = Defined (Integral n))))) \<and>
         (\<forall>r st2. extensionsLoaded st2 \<longrightarrow> exec_finally ops r st2 = (r, st2))"
proof -
  have reader_returns: "exec ops sql ps st =
      exec_finally ops (Inr \<lparr>rows = rs, numAffectedRows = None, insertId = None\<rparr>)
        (native NAll w st1)"
    if "stmt_reader ops p" and "stmt_all ops p ps (world st1) = (Inr rs, w)" for rs w
    using exec_try_reader_returns [OF that, of sql] exec_resolved [OF assms, of ps] by simp
  have reader_shape: "(\<exists>w. stmt_all ops p ps (world st1) = (Inr (rows res), w)) \<and>
      numAffectedRows res = None \<and> insertId res = None"
    if r: "stmt_reader ops p" and e: "exec ops sql ps st = (Inr res, st')" for res st'
  proof -
    from exec_Inr [OF e assms] obtain st2 where "exec_try ops p sql ps st1 = (Inr res, st2)" ..
    from exec_try_reader [OF this r] show ?thesis .
  qed
  have writer_returns: "exec ops sql ps st =
      exec_finally ops (Inr \<lparr>rows = [], numAffectedRows = a, insertId = i\<rparr>)
        (native NRun w st1)"
    if "\<not> stmt_reader ops p" and "stmt_run ops p ps (world st1) = (Inr rr, w)"
      and "numAffectedRows_of (changes rr) = Inr a" and "insertId_of (lastInsertRowid rr) = Inr i"
    for rr w a i
    using exec_try_writer_returns [OF that, of sql] exec_resolved [OF assms, of ps] by simp
  have writer_shape: "rows res = [] \<and>
      (\<exists>rr w. stmt_run ops p ps (world st1) = (Inr rr, w) \<and>
         (numAffectedRows res \<noteq> None) = (\<exists>x. changes rr = Defined x \<and> \<not> isNaN x) \<and>
         (\<forall>n. numAffectedRows res = Some n \<longrightarrow> changes rr = Defined (Integral n)))"
    if nr: "\<not> stmt_reader ops p" and e: "exec ops sql ps st = (Inr res, st')" for res st'
  proof -
    from exec_Inr [OF e assms] obtain st2 where
      t: "exec_try ops p sql ps st1 = (Inr res, st2)" ..
    from exec_try_writer [OF t nr] obtain rr w where
      rr: "stmt_run ops p ps (world st1) = (Inr rr, w)" "rows res = []"
          "numAffectedRows_of (changes rr) = Inr (numAffectedRows res)"
      by blast
    from numAffectedRows_of_Inr [OF rr(3)] rr(1) rr(2) show ?thesis by blast
  qed
  show ?thesis
  proof (intro conjI impI allI)
    fix rs w
    assume "stmt_reader ops p" and "stmt_all ops p ps (world st1) = (Inr rs, w)"
    then show "exec ops sql ps st =
        exec_finally ops (Inr \<lparr>rows = rs, numAffectedRows = None, insertId = None\<rparr>)
          (native NAll w st1)"
      by (rule reader_returns)
  next
    fix res st'
    assume "stmt_reader ops p" and "exec ops sql ps st = (Inr res, st')"
    note s = reader_shape [OF this]
    from s show "\<exists>w. stmt_all ops p ps (world st1) = (Inr (rows res), w)" by simp
    from s show "numAffectedRows res = None" by simp
    from s show "insertId res = None" by simp
  next
    fix rr w i n
    assume nr: "\<not> stmt_reader ops p"
      and run: "stmt_run ops p ps (world st1) = (Inr rr, w) \<and>
        insertId_of (lastInsertRowid rr) = Inr i"
      and c: "changes rr = Defined (Integral n)"
    from c have "numAffectedRows_of (changes rr) = Inr (Some n)"
      by (simp add: numAffectedRows_of_values)
    from writer_returns [OF nr conjunct1 [OF run] this conjunct2 [OF run]]
    show "exec ops sql ps st =
        exec_finally ops (Inr \<lparr>rows = [], numAffectedRows = Some n, insertId = i\<rparr>)
          (native NRun w st1)" .
  next
    fix rr w i
    assume nr: "\<not> stmt_reader ops p"
      and run: "stmt_run ops p ps (world st1) = (Inr rr, w) \<and>
        insertId_of (lastInsertRowid rr) = Inr i"
      and c: "changes rr = Undefined \<or> changes rr = Null \<or> changes rr = Defined NaN"
    from c have "numAffectedRows_of (changes rr) = Inr None"
      by (auto simp add: numAffectedRows_of_values)
    from writer_returns [OF nr conjunct1 [OF run] this conjunct2 [OF run]]
    show "exec ops sql ps st =
        exec_finally ops (Inr \<lparr>rows = [], numAffectedRows = None, insertId = i\<rparr>)
          (native NRun w st1)" .
  next
    fix res st'
    assume "\<not> stmt_reader ops p" and "exec ops sql ps st = (Inr res, st')"
    note s = writer_shape [OF this]
    from s show "rows res = []" by simp
    from s show "\<exists>rr w. stmt_run ops p ps (world st1) = (Inr rr, w) \<and>
        (numAffectedRows res \<noteq> None) = (\<exists>x. changes rr = Defined x \<and> \<not> isNaN x) \<and>
        (\<forall>n. numAffectedRows res = Some n \<longrightarrow> changes rr = Defined (Integral n))"
      by simp
  next
    show "exec_finally ops r st2 = (r, st2)" if "extensionsLoaded st2" for r st2
      using that by (rule exec_finally_loaded)
  qed
qed

text \<open>The state \<^verbatim>\<open>prepare\<close> leaves on the concrete engine, for a text it compiles.\<close>

lemma demo_prepare:
  assumes "sql \<noteq> ''SELECT 1;''"
  shows "prepare demo sql (demo_open True 0) =
    (Inr (Some sql),
     \<lparr>sqlite = Some 0, initialized = False, preparedStatements = [sql \<mapsto> sql],
      retryCounter = [sql \<mapsto> 0], extensionsLoaded = False,
      world = \<lparr>keyed = True, flaky = 0\<rparr>, calls = [NOpen ''notes.db'', NCompile sql]\<rparr>)"
  using assms by (simp add: prepare.simps demo_open_eq demo_def native_def)

text \<open>Its loaders never throw, so its \<^verbatim>\<open>finally\<close> block passes every outcome on.\<close>

lemma demo_finally_passes: "fst (exec_finally demo r st) = r"
  by (simp add: exec_finally_def isDatabaseReady_def demo_def
      split: option.splits prod.splits sum.splits bool.splits)

theorem exec_result_shape_witness:
  "stmt_reader demo ''SELECT title FROM notes'' \<and>
   fst (prepare demo ''SELECT title FROM notes'' (demo_open True 0)) =
     Inr (Some ''SELECT title FROM notes'') \<and>
   fst (exec demo ''SELECT title FROM notes'' [] (demo_open True 0)) =
     Inr \<lparr>rows = [''SELECT title FROM notes''], numAffectedRows = None, insertId = None\<rparr> \<and>
   \<not> stmt_reader demo ''UPDATE notes SET title = ?'' \<and>
   fst (exec demo ''UPDATE notes SET title = ?'' [PString ''a''] (demo_open True 0)) =
     Inr \<lparr>rows = [], numAffectedRows = Some 3, insertId = Some 42\<rparr> \<and>
   \<not> stmt_reader demo ''VACUUM'' \<and>
   fst (exec demo ''VACUUM'' [] (demo_open True 0)) =
     Inr \<lparr>rows = [], numAffectedRows = None, insertId = None\<rparr>"
proof -
  let ?sel = "''SELECT title FROM notes''"
  let ?upd = "''UPDATE notes SET title = ?''"
  let ?vac = "''VACUUM''"
  let ?w = "\<lparr>keyed = True, flaky = 0\<rparr>"
  note p1 = demo_prepare [of ?sel, simplified]
  note p2 = demo_prepare [of ?upd, simplified]
  note p3 = demo_prepare [of ?vac, simplified]
  have r1: "stmt_reader demo ?sel" and r2: "\<not> stmt_reader demo ?upd"
    and r3: "\<not> stmt_reader demo ?vac"
    by (simp_all add: demo_def)
  have a: "stmt_all demo ?sel [] ?w = (Inr [?sel], ?w)" by (simp add: demo_def)
  have u: "stmt_run demo ?upd [PString ''a''] ?w =
      (Inr \<lparr>changes = Defined (Integral 3),
             lastInsertRowid = Defined (RowidNumber (Integral 42))\<rparr>, ?w) \<and>
      insertId_of (lastInsertRowid \<lparr>changes = Defined (Integral 3),
             lastInsertRowid = Defined (RowidNumber (Integral 42))\<rparr>) = Inr (Some 42)"
    by (simp add: demo_def insertId_of_values)
  have v: "stmt_run demo ?vac [] ?w = (Inr \<lparr>changes = Undefined, lastInsertRowid = Null\<rparr>, ?w) \<and>
      insertId_of (lastInsertRowid \<lparr>changes = Undefined, lastInsertRowid = Null\<rparr>) = Inr None"
    by (simp add: demo_def insertId_of_values)
  from exec_result_shape [OF p1, of "[]"] r1 a
  have "exec demo ?sel [] (demo_open True 0) =
      exec_finally demo (Inr \<lparr>rows = [?sel], numAffectedRows = None, insertId = None\<rparr>)
        (native NAll ?w (snd (prepare demo ?sel (demo_open True 0))))"
    by (simp add: p1)
  then have e1: "fst (exec demo ?sel [] (demo_open True 0)) =
      Inr \<lparr>rows = [?sel], numAffectedRows = None, insertId = None\<rparr>"
    by (simp add: demo_finally_passes)
  from exec_result_shape [OF p2, of "[PString ''a'']"] r2 u
  have "exec demo ?upd [PString ''a''] (demo_open True 0) =
      exec_finally demo (Inr \<lparr>rows = [], numAffectedRows = Some 3, insertId = Some 42\<rparr>)
        (native NRun ?w (snd (prepare demo ?upd (demo_open True 0))))"
    by (simp add: p2)
  then have e2: "fst (exec demo ?upd [PString ''a''] (demo_open True 0)) =
      Inr \<lparr>rows = [], numAffectedRows = Some 3, insertId = Some 42\<rparr>"
    by (simp add: demo_finally_passes)
  from exec_result_shape [OF p3, of "[]"] r3 v
  have "exec demo ?vac [] (demo_open True 0) =
      exec_finally demo (Inr \<lparr>rows = [], numAffectedRows = None, insertId = None\<rparr>)
        (native NRun ?w (snd (prepare demo ?vac (demo_open True 0))))"
    by (simp add: p3)
  then have e3: "fst (exec demo ?vac [] (demo_open True 0)) =
      Inr \<lparr>rows = [], numAffectedRows = None, insertId = None\<rparr>"
    by (simp add: demo_finally_passes)
  from r1 r2 r3 e1 e2 e3 p1 show ?thesis by simp
qed

text \<open>
  C6, as the code has it. For a writer whose \<^verbatim>\<open>run\<close> returns and whose change count
  converts: the \<^verbatim>\<open>try\<close> block ends with a result whose insert id is the reported
  identifier, passed through when it is a bigint and converted when it is a number holding
  an integer, and with no insert id when the engine reports \<^verbatim>\<open>undefined\<close> or
  \<^verbatim>\<open>null\<close>; a number that holds no integer makes the conversion throw, and the block
  ends with the annotated error. \<^verbatim>\<open>exec\<close> is the \<^verbatim>\<open>finally\<close> block run on that
  outcome, so every result \<^verbatim>\<open>exec\<close> returns carries that insert id; the
  \<^verbatim>\<open>finally\<close> block passes the outcome on unless a loader throws, and then the caller
  gets the loader's error and no result.
\<close>

theorem exec_insert_id:
  assumes "prepare ops sql st = (Inr (Some p), st1)" and "\<not> stmt_reader ops p"
    and "stmt_run ops p ps (world st1) = (Inr rr, w)"
    and "numAffectedRows_of (changes rr) = Inr a"
  shows "(\<forall>n. lastInsertRowid rr = Defined (RowidBigint n) \<or>
              lastInsertRowid rr = Defined (RowidNumber (Integral n)) \<longrightarrow>
            exec ops sql ps st =
              exec_finally ops (Inr \<lparr>rows = [], numAffectedRows = a, insertId = Some n\<rparr>)
                (native NRun w st1)) \<and>
         (lastInsertRowid rr = Undefined \<or> lastInsertRowid rr = Null \<longrightarrow>
            exec ops sql ps st =
              exec_finally ops (Inr \<lparr>rows = [], numAffectedRows = a, insertId = None\<rparr>)
                (native NRun w st1)) \<and>
         (\<forall>x. lastInsertRowid rr = Defined (RowidNumber x) \<and> (\<forall>n. x \<noteq> Integral n) \<longrightarrow>
            (\<exists>e. exec ops sql ps st =
               exec_finally ops (Inl (annotate sql e)) (native NRun w st1))) \<and>
         (\<forall>res st'. exec ops sql ps st = (Inr res, st') \<longrightarrow>
            (\<forall>n. lastInsertRowid rr = Defined (RowidBigint n) \<or>
                 lastInsertRowid rr = Defined (RowidNumber (Integral n)) \<longrightarrow>
               insertId res = Some n) \<and>
            (lastInsertRowid rr = Undefined \<or> lastInsertRowid rr = Null \<longrightarrow>
               insertId res = None)) \<and>
         (\<forall>r st2 r' st'. exec_finally ops r st2 = (r', st') \<longrightarrow>
            r' = r \<or>
            (\<exists>e w0 w1. r' = Inl e \<and>
               (betterTrigram_load ops (sqlite st2) w0 = (Inl e, w1) \<or>
                fts5Html_load ops (sqlite st2) w0 = (Inl e, w1))))"
proof -
  note run = assms(3) and count = assms(4)
  have returns: "exec ops sql ps st =
      exec_finally ops (Inr \<lparr>rows = [], numAffectedRows = a, insertId = i\<rparr>)
        (native NRun w st1)"
    if "insertId_of (lastInsertRowid rr) = Inr i" for i
    using exec_try_writer_returns [OF assms(2) run count that, of sql]
      exec_resolved [OF assms(1), of ps]
    by simp
  have from_id: "exec ops sql ps st =
      exec_finally ops (Inr \<lparr>rows = [], numAffectedRows = a, insertId = Some n\<rparr>)
        (native NRun w st1)"
    if "lastInsertRowid rr = Defined (RowidBigint n) \<or>
        lastInsertRowid rr = Defined (RowidNumber (Integral n))" for n
    using that by (intro returns) (auto simp add: insertId_of_values)
  have no_id: "exec ops sql ps st =
      exec_finally ops (Inr \<lparr>rows = [], numAffectedRows = a, insertId = None\<rparr>)
        (native NRun w st1)"
    if "lastInsertRowid rr = Undefined \<or> lastInsertRowid rr = Null"
    using that by (intro returns) (auto simp add: insertId_of_values)
  have throws: "\<exists>e. exec ops sql ps st =
      exec_finally ops (Inl (annotate sql e)) (native NRun w st1)"
    if "lastInsertRowid rr = Defined (RowidNumber x) \<and> (\<forall>n. x \<noteq> Integral n)" for x
  proof -
    from that insertId_of_throws [of x] obtain e where
      "insertId_of (lastInsertRowid rr) = Inl e" by auto
    from exec_try_writer_id_throws [OF assms(2) run count this, of sql]
      exec_resolved [OF assms(1), of ps]
    show ?thesis by auto
  qed
  have sound_id: "insertId res = Some n"
    if "exec ops sql ps st = (Inr res, st')"
      and "lastInsertRowid rr = Defined (RowidBigint n) \<or>
           lastInsertRowid rr = Defined (RowidNumber (Integral n))" for res st' n
  proof -
    from from_id [OF that(2)] that(1)
    have "exec_finally ops (Inr \<lparr>rows = [], numAffectedRows = a, insertId = Some n\<rparr>)
        (native NRun w st1) = (Inr res, st')" by simp
    from exec_finally_Inr [OF this] show ?thesis by auto
  qed
  have sound_none: "insertId res = None"
    if "exec ops sql ps st = (Inr res, st')"
      and "lastInsertRowid rr = Undefined \<or> lastInsertRowid rr = Null" for res st'
  proof -
    from no_id [OF that(2)] that(1)
    have "exec_finally ops (Inr \<lparr>rows = [], numAffectedRows = a, insertId = None\<rparr>)
        (native NRun w st1) = (Inr res, st')" by simp
    from exec_finally_Inr [OF this] show ?thesis by auto
  qed
  have passes: "r' = r \<or>
      (\<exists>e w0 w1. r' = Inl e \<and>
         (betterTrigram_load ops (sqlite st2) w0 = (Inl e, w1) \<or>
          fts5Html_load ops (sqlite st2) w0 = (Inl e, w1)))"
    if "exec_finally ops r st2 = (r', st')" for r st2 r' st'
    using exec_finally_outcome [OF that] .
  from from_id no_id throws sound_id sound_none passes show ?thesis by blast
qed

text \<open>
  The claim as stated fails when a loader throws in the \<^verbatim>\<open>finally\<close> block: the writer
  ran and the engine reported the identifier 7, and the caller gets the loader's error and
  no insert id.
\<close>

theorem insert_id_lost_to_loader:
  "\<not> stmt_reader demo_noext ''INSERT INTO notes VALUES (?)'' \<and>
   fst (prepare demo_noext ''INSERT INTO notes VALUES (?)'' (demo_open True 0)) =
     Inr (Some ''INSERT INTO notes VALUES (?)'') \<and>
   fst (stmt_run demo_noext ''INSERT INTO notes VALUES (?)'' [PString ''a'']
          (world (snd (prepare demo_noext ''INSERT INTO notes VALUES (?)'' (demo_open True 0))))) =
     Inr \<lparr>changes = Defined (Integral 1), lastInsertRowid = Defined (RowidBigint 7)\<rparr> \<and>
   fst (exec demo_noext ''INSERT INTO notes VALUES (?)'' [PString ''a''] (demo_open True 0)) =
     Inl (JsError ''Loadable extension for sqlite-better-trigram not found'')"
  by (simp add: run_model demo_noext_def)

theorem exec_insert_id_witness:
  "\<not> stmt_reader demo ''UPDATE notes SET title = ?'' \<and>
   fst (prepare demo ''UPDATE notes SET title = ?'' (demo_open True 0)) =
     Inr (Some ''UPDATE notes SET title = ?'') \<and>
   stmt_run demo ''UPDATE notes SET title = ?'' [PString ''a''] \<lparr>keyed = True, flaky = 0\<rparr> =
     (Inr \<lparr>changes = Defined (Integral 3),
            lastInsertRowid = Defined (RowidNumber (Integral 42))\<rparr>,
      \<lparr>keyed = True, flaky = 0\<rparr>) \<and>
   fst (exec demo ''UPDATE notes SET title = ?'' [PString ''a''] (demo_open True 0)) =
     Inr \<lparr>rows = [], numAffectedRows = Some 3, insertId = Some 42\<rparr> \<and>
   stmt_run demo ''INSERT INTO notes VALUES (?)'' [PString ''a''] \<lparr>keyed = True, flaky = 0\<rparr> =
     (Inr \<lparr>changes = Defined (Integral 1), lastInsertRowid = Defined (RowidBigint 7)\<rparr>,
      \<lparr>keyed = True, flaky = 0\<rparr>) \<and>
   fst (exec demo ''INSERT INTO notes VALUES (?)'' [PString ''a''] (demo_open True 0)) =
     Inr \<lparr>rows = [], numAffectedRows = Some 1, insertId = Some 7\<rparr> \<and>
   stmt_run demo ''VACUUM'' [] \<lparr>keyed = True, flaky = 0\<rparr> =
     (Inr \<lparr>changes = Undefined, lastInsertRowid = Null\<rparr>, \<lparr>keyed = True, flaky = 0\<rparr>) \<and>
   fst (exec demo ''VACUUM'' [] (demo_open True 0)) =
     Inr \<lparr>rows = [], numAffectedRows = None, insertId = None\<rparr>"
proof -
  let ?upd = "''UPDATE notes SET title = ?''"
  let ?ins = "''INSERT INTO notes VALUES (?)''"
  let ?vac = "''VACUUM''"
  let ?w = "\<lparr>keyed = True, flaky = 0\<rparr>"
  note p1 = demo_prepare [of ?upd, simplified]
  note p2 = demo_prepare [of ?ins, simplified]
  note p3 = demo_prepare [of ?vac, simplified]
  have r: "\<not> stmt_reader demo ?upd" "\<not> stmt_reader demo ?ins" "\<not> stmt_reader demo ?vac"
    by (simp_all add: demo_def)
  have u: "stmt_run demo ?upd [PString ''a''] ?w =
      (Inr \<lparr>changes = Defined (Integral 3),
             lastInsertRowid = Defined (RowidNumber (Integral 42))\<rparr>, ?w)"
    by (simp add: demo_def)
  have i: "stmt_run demo ?ins [PString ''a''] ?w =
      (Inr \<lparr>changes = Defined (Integral 1), lastInsertRowid = Defined (RowidBigint 7)\<rparr>, ?w)"
    by (simp add: demo_def)
  have v: "stmt_run demo ?vac [] ?w = (Inr \<lparr>changes = Undefined, lastInsertRowid = Null\<rparr>, ?w)"
    by (simp add: demo_def)
  from exec_insert_id [OF p1 r(1), where ps = "[PString ''a'']" and w = ?w and a = "Some 3"] u
  have "exec demo ?upd [PString ''a''] (demo_open True 0) =
      exec_finally demo (Inr \<lparr>rows = [], numAffectedRows = Some 3, insertId = Some 42\<rparr>)
        (native NRun ?w (snd (prepare demo ?upd (demo_open True 0))))"
    by (simp add: p1 numAffectedRows_of_values)
  then have e1: "fst (exec demo ?upd [PString ''a''] (demo_open True 0)) =
      Inr \<lparr>rows = [], numAffectedRows = Some 3, insertId = Some 42\<rparr>"
    by (simp add: demo_finally_passes)
  from exec_insert_id [OF p2 r(2), where ps = "[PString ''a'']" and w = ?w and a = "Some 1"] i
  have "exec demo ?ins [PString ''a''] (demo_open True 0) =
      exec_finally demo (Inr \<lparr>rows = [], numAffectedRows = Some 1, insertId = Some 7\<rparr>)
        (native NRun ?w (snd (prepare demo ?ins (demo_open True 0))))"
    by (simp add: p2 numAffectedRows_of_values)
  then have e2: "fst (exec demo ?ins [PString ''a''] (demo_open True 0)) =
      Inr \<lparr>rows = [], numAffectedRows = Some 1, insertId = Some 7\<rparr>"
    by (simp add: demo_finally_passes)
  from exec_insert_id [OF p3 r(3), where ps = "[]" and w = ?w and a = None] v
  have "exec demo ?vac [] (demo_open True 0) =
      exec_finally demo (Inr \<lparr>rows = [], numAffectedRows = None, insertId = None\<rparr>)
        (native NRun ?w (snd (prepare demo ?vac (demo_open True 0))))"
    by (simp add: p3 numAffectedRows_of_values)
  then have e3: "fst (exec demo ?vac [] (demo_open True 0)) =
      Inr \<lparr>rows = [], numAffectedRows = None, insertId = None\<rparr>"
    by (simp add: demo_finally_passes)
  from r u i v e1 e2 e3 p1 show ?thesis by simp
qed

subsection \<open>Surfaced errors\<close>

lemma annotate_JsError:
  "annotate sql e0 = JsError m \<Longrightarrow> \<exists>m0. e0 = JsError m0 \<and> m = m0 @ '' (query: '' @ sql @ '')''"
  by (cases e0) (simp_all add: annotate_def)

lemma exec_try_error_annotated:
  "exec_try ops p sql ps st = (Inl e, st2) \<Longrightarrow> \<exists>e0. e = annotate sql e0"
  by (auto simp add: exec_try_def split: if_splits prod.splits sum.splits)

lemma exec_error_annotated:
  assumes "exec ops sql ps st = (Inl e, st')" and "sqlite st = Some h"
  shows "(\<exists>e0. e = annotate sql e0) \<or>
         (\<exists>w w'. betterTrigram_load ops (Some h) w = (Inl e, w') \<or>
                  fts5Html_load ops (Some h) w = (Inl e, w'))"
proof -
  obtain r1 st1 where p: "prepare ops sql st = (r1, st1)" by (cases "prepare ops sql st")
  note f1 = prepare_frame [of ops sql st, unfolded p, simplified]
  show ?thesis
  proof (cases r1)
    case (Inl e1)
    with p assms(1) have "e = e1" by (simp add: exec_def)
    with prepare_error_annotated [OF p [unfolded Inl] assms(2)] show ?thesis by blast
  next
    case (Inr po)
    show ?thesis
    proof (cases po)
      case None
      with p Inr assms(1) show ?thesis by (simp add: exec_def)
    next
      case (Some q)
      obtain r2 st2 where t: "exec_try ops q sql ps st1 = (r2, st2)"
        by (cases "exec_try ops q sql ps st1")
      note f2 = exec_try_frame [of ops q sql ps st1, unfolded t, simplified]
      from p Inr Some t assms(1) have fin: "exec_finally ops r2 st2 = (Inl e, st')"
        by (simp add: exec_def)
      from f1 f2 assms(2) have h2: "sqlite st2 = Some h" by simp
      from exec_finally_outcome [OF fin] show ?thesis
      proof
        assume "Inl e = r2"
        with t exec_try_error_annotated [of ops q sql ps st1 e st2] show ?thesis by auto
      next
        assume "\<exists>e' w w'. Inl e = Inl e' \<and>
          (betterTrigram_load ops (sqlite st2) w = (Inl e', w') \<or>
           fts5Html_load ops (sqlite st2) w = (Inl e', w'))"
        with h2 show ?thesis by auto
      qed
    qed
  qed
qed

text \<open>
  C8. On an open instance, a value thrown by \<^verbatim>\<open>prepare\<close> is the value the last failed
  compilation threw, annotated; a value thrown by \<^verbatim>\<open>exec\<close> or \<^verbatim>\<open>run\<close> is an
  annotated value (thrown by the compilation, the execution or the conversion of a count),
  unless it was thrown by an extension loader in the \<^verbatim>\<open>finally\<close> block. An annotated
  \<^verbatim>\<open>Error\<close> has the message of the original followed by the SQL text in
  \<^verbatim>\<open> (query: ...)\<close>.
\<close>

theorem surfaced_error_carries_sql:
  assumes "sqlite st = Some h"
  shows "(prepare ops sql st = (Inl e, st') \<longrightarrow>
            (\<exists>e0 w w'. db_prepare ops h sql w = (Inl e0, w') \<and> e = annotate sql e0)) \<and>
         (exec ops sql ps st = (Inl e, st') \<or> run ops sql (Some ps) st = (Inl e, st') \<longrightarrow>
            (\<exists>e0. e = annotate sql e0) \<or>
            (\<exists>w w'. betterTrigram_load ops (Some h) w = (Inl e, w') \<or>
                     fts5Html_load ops (Some h) w = (Inl e, w'))) \<and>
         (\<forall>e0 m. annotate sql e0 = JsError m \<longrightarrow>
            (\<exists>m0. e0 = JsError m0 \<and> m = m0 @ '' (query: '' @ sql @ '')''))"
proof (intro conjI impI allI)
  assume "prepare ops sql st = (Inl e, st')"
  from prepare_error_annotated [OF this assms]
  show "\<exists>e0 w w'. db_prepare ops h sql w = (Inl e0, w') \<and> e = annotate sql e0" by blast
next
  assume "exec ops sql ps st = (Inl e, st') \<or> run ops sql (Some ps) st = (Inl e, st')"
  with assms have "exec ops sql ps st = (Inl e, st')" by (auto simp add: run_def)
  from exec_error_annotated [OF this assms]
  show "(\<exists>e0. e = annotate sql e0) \<or>
        (\<exists>w w'. betterTrigram_load ops (Some h) w = (Inl e, w') \<or>
                 fts5Html_load ops (Some h) w = (Inl e, w'))" .
next
  fix e0 m assume "annotate sql e0 = JsError m"
  then show "\<exists>m0. e0 = JsError m0 \<and> m = m0 @ '' (query: '' @ sql @ '')''"
    by (rule annotate_JsError)
qed

theorem surfaced_error_carries_sql_witness:
  "sqlite (demo_open False 3) = Some 0 \<and>
   fst (prepare demo ''SELECT title FROM notes'' (demo_open False 3)) =
     Inl (JsError ''out of memory (query: SELECT title FROM notes)'') \<and>
   (\<exists>e0 w w'. db_prepare demo 0 ''SELECT title FROM notes'' w = (Inl e0, w') \<and>
      JsError ''out of memory (query: SELECT title FROM notes)'' =
        annotate ''SELECT title FROM notes'' e0) \<and>
   fst (exec demo ''SELECT body FROM notes'' [] (demo_open False 0)) =
     Inl (JsError ''file is not a database (query: SELECT body FROM notes)'') \<and>
   (\<exists>e0. JsError ''file is not a database (query: SELECT body FROM notes)'' =
      annotate ''SELECT body FROM notes'' e0)"
proof -
  let ?e1 = "JsError ''out of memory (query: SELECT title FROM notes)''"
  let ?e2 = "JsError ''file is not a database (query: SELECT body FROM notes)''"
  have h: "sqlite (demo_open False 3) = Some 0" "sqlite (demo_open False 0) = Some 0"
    by (simp_all add: demo_open_eq)
  have p: "fst (prepare demo ''SELECT title FROM notes'' (demo_open False 3)) = Inl ?e1"
    by (simp add: run_model)
  then have p': "prepare demo ''SELECT title FROM notes'' (demo_open False 3) =
      (Inl ?e1, snd (prepare demo ''SELECT title FROM notes'' (demo_open False 3)))"
    by (simp add: prod_eq_iff)
  have x: "fst (exec demo ''SELECT body FROM notes'' [] (demo_open False 0)) = Inl ?e2"
    by (simp add: run_model)
  then have x': "exec demo ''SELECT body FROM notes'' [] (demo_open False 0) =
      (Inl ?e2, snd (exec demo ''SELECT body FROM notes'' [] (demo_open False 0)))"
    by (simp add: prod_eq_iff)
  have no_loader: "\<not> (\<exists>w w'. betterTrigram_load demo (Some 0) w = (Inl ?e2, w') \<or>
                     fts5Html_load demo (Some 0) w = (Inl ?e2, w'))"
    by (simp add: demo_def)
  from surfaced_error_carries_sql [OF h(1), where ops = demo
      and sql = "''SELECT title FROM notes''" and e = ?e1
      and st' = "snd (prepare demo ''SELECT title FROM notes'' (demo_open False 3))"] p'
  have c1: "\<exists>e0 w w'. db_prepare demo 0 ''SELECT title FROM notes'' w = (Inl e0, w') \<and>
      ?e1 = annotate ''SELECT title FROM notes'' e0" by blast
  from surfaced_error_carries_sql [OF h(2), where ops = demo
      and sql = "''SELECT body FROM notes''" and ps = "[]" and e = ?e2
      and st' = "snd (exec demo ''SELECT body FROM notes'' [] (demo_open False 0))"] x' no_loader
  have c2: "\<exists>e0. ?e2 = annotate ''SELECT body FROM notes'' e0" by blast
  from h p c1 x c2 show ?thesis by blast
qed

subsection \<open>The probe and the loaders after the try block\<close>

lemma exec_unfold:
  assumes "prepare ops sql st = (Inr (Some p), st1)" and "exec_try ops p sql ps st1 = (r, st2)"
  shows "exec ops sql ps st = exec_finally ops r st2"
  using assms by (simp add: exec_def)

lemma not_loaded_at_finally:
  assumes "prepare ops sql st = (Inr (Some p), st1)" and "exec_try ops p sql ps st1 = (r, st2)"
  shows "extensionsLoaded st2 = extensionsLoaded st"
  using prepare_frame [of ops sql st] exec_try_frame [of ops p sql ps st1] assms by simp

text \<open>
  C2, as the code has it. On an instance whose flag is not set: when \<^verbatim>\<open>prepare\<close>
  throws or yields no statement, \<^verbatim>\<open>exec\<close> ends with the state \<^verbatim>\<open>prepare\<close> left (no
  probe, no load). When a statement is resolved, then whatever the outcome \<open>r\<close> of the
  \<^verbatim>\<open>try\<close> block (a result or a thrown value), the probe runs on the state the block
  left; if it reports \<^verbatim>\<open>false\<close> the outcome is \<open>r\<close>; if it reports \<^verbatim>\<open>true\<close> the
  trigram loader is called, then the HTML full-text loader, and when both return the
  flag is set and the outcome is \<open>r\<close>; a value thrown by a loader is the outcome
  instead, and the flag stays unset.
\<close>

theorem exec_probe_and_load:
  assumes "\<not> extensionsLoaded st"
  shows "(prepare ops sql st = (Inl ex, st1) \<longrightarrow> exec ops sql ps st = (Inl ex, st1)) \<and>
    (prepare ops sql st = (Inr None, st1) \<longrightarrow>
       exec ops sql ps st = (Inr \<lparr>rows = [], numAffectedRows = None, insertId = None\<rparr>, st1)) \<and>
    (prepare ops sql st = (Inr (Some p), st1) \<and> exec_try ops p sql ps st1 = (r, st2) \<longrightarrow>
       (isDatabaseReady ops st2 = (False, st3) \<longrightarrow> exec ops sql ps st = (r, st3)) \<and>
       (isDatabaseReady ops st2 = (True, st3) \<longrightarrow>
          (betterTrigram_load ops (sqlite st3) (world st3) = (Inl e, w) \<longrightarrow>
             exec ops sql ps st = (Inl e, native NLoadTrigram w st3)) \<and>
          (betterTrigram_load ops (sqlite st3) (world st3) = (Inr (), w) \<longrightarrow>
             (fts5Html_load ops (sqlite st3) w = (Inl e, w') \<longrightarrow>
                exec ops sql ps st =
                  (Inl e, native NLoadFts5Html w' (native NLoadTrigram w st3))) \<and>
             (fts5Html_load ops (sqlite st3) w = (Inr (), w') \<longrightarrow>
                exec ops sql ps st =
                  (r, (native NLoadFts5Html w' (native NLoadTrigram w st3))
                        \<lparr>extensionsLoaded := True\<rparr>)))))"
proof (intro conjI impI)
  assume "prepare ops sql st = (Inl ex, st1)"
  then show "exec ops sql ps st = (Inl ex, st1)" by (simp add: exec_def)
next
  assume "prepare ops sql st = (Inr None, st1)"
  then show "exec ops sql ps st =
      (Inr \<lparr>rows = [], numAffectedRows = None, insertId = None\<rparr>, st1)"
    by (simp add: exec_def)
next
  assume a: "prepare ops sql st = (Inr (Some p), st1) \<and> exec_try ops p sql ps st1 = (r, st2)"
  then have u: "exec ops sql ps st = exec_finally ops r st2" by (simp add: exec_unfold)
  from not_loaded_at_finally [of ops sql st p st1 ps r st2] a assms
  have n: "\<not> extensionsLoaded st2" by simp
  {
    assume "isDatabaseReady ops st2 = (False, st3)"
    with u n show "exec ops sql ps st = (r, st3)" by (simp add: exec_finally_def)
  next
    assume t: "isDatabaseReady ops st2 = (True, st3)"
    {
      assume "betterTrigram_load ops (sqlite st3) (world st3) = (Inl e, w)"
      with u n t show "exec ops sql ps st = (Inl e, native NLoadTrigram w st3)"
        by (simp add: exec_finally_def)
    next
      assume l1: "betterTrigram_load ops (sqlite st3) (world st3) = (Inr (), w)"
      {
        assume "fts5Html_load ops (sqlite st3) w = (Inl e, w')"
        with u n t l1 show "exec ops sql ps st =
            (Inl e, native NLoadFts5Html w' (native NLoadTrigram w st3))"
          by (simp add: exec_finally_def)
      next
        assume "fts5Html_load ops (sqlite st3) w = (Inr (), w')"
        with u n t l1 show "exec ops sql ps st =
            (r, (native NLoadFts5Html w' (native NLoadTrigram w st3))
                  \<lparr>extensionsLoaded := True\<rparr>)"
          by (simp add: exec_finally_def)
      }
    }
  }
qed

text \<open>
  The claim as stated fails on the path where \<^verbatim>\<open>prepare\<close> throws: the flag is not set
  and \<^verbatim>\<open>exec\<close> ends with a thrown error, the log holds the failed compilation and
  nothing else (the probe compiles \<^verbatim>\<open>SELECT 1;\<close>), nothing is loaded and the flag stays
  unset, although the database is queryable: the probe, run on the state \<^verbatim>\<open>exec\<close>
  left, reports \<^verbatim>\<open>true\<close>.
\<close>

theorem exec_prepare_failure_skips_probe:
  "\<not> extensionsLoaded (demo_open True 100) \<and>
   fst (exec demo ''SELECT title FROM notes'' [] (demo_open True 100)) =
     Inl (JsError ''out of memory (query: SELECT title FROM notes)'') \<and>
   calls (snd (exec demo ''SELECT title FROM notes'' [] (demo_open True 100))) =
     [NOpen ''notes.db'', NCompile ''SELECT title FROM notes''] \<and>
   \<not> extensionsLoaded (snd (exec demo ''SELECT title FROM notes'' [] (demo_open True 100))) \<and>
   fst (isDatabaseReady demo
          (snd (exec demo ''SELECT title FROM notes'' [] (demo_open True 100))))"
  by (simp add: run_model)

theorem exec_probe_and_load_witness:
  "\<not> extensionsLoaded (demo_open False 0) \<and>
   fst (prepare demo ''PRAGMA key = 1'' (demo_open False 0)) = Inr (Some ''PRAGMA key = 1'') \<and>
   fst (exec_try demo ''PRAGMA key = 1'' ''PRAGMA key = 1'' []
          (snd (prepare demo ''PRAGMA key = 1'' (demo_open False 0)))) =
     Inr \<lparr>rows = [], numAffectedRows = Some 0, insertId = Some 0\<rparr> \<and>
   fst (exec demo ''PRAGMA key = 1'' [] (demo_open False 0)) =
     Inr \<lparr>rows = [], numAffectedRows = Some 0, insertId = Some 0\<rparr> \<and>
   extensionsLoaded (snd (exec demo ''PRAGMA key = 1'' [] (demo_open False 0))) \<and>
   calls (snd (exec demo ''PRAGMA key = 1'' [] (demo_open False 0))) =
     [NOpen ''notes.db'', NCompile ''PRAGMA key = 1'', NRun, NCompile ''SELECT 1;'', NRun,
      NLoadTrigram, NLoadFts5Html]"
proof -
  let ?sql = "''PRAGMA key = 1''"
  let ?st = "demo_open False 0"
  let ?st1 = "snd (prepare demo ?sql ?st)"
  let ?r = "Inr \<lparr>rows = [], numAffectedRows = Some 0, insertId = Some 0\<rparr>
              :: thrown + string QueryResult"
  let ?st2 = "snd (exec_try demo ?sql ?sql [] ?st1)"
  let ?st3 = "snd (isDatabaseReady demo ?st2)"
  have n: "\<not> extensionsLoaded ?st" by (simp add: demo_open_eq)
  have p: "fst (prepare demo ?sql ?st) = Inr (Some ?sql)" by (simp add: run_model)
  then have p': "prepare demo ?sql ?st = (Inr (Some ?sql), ?st1)" by (simp add: prod_eq_iff)
  have t: "fst (exec_try demo ?sql ?sql [] ?st1) = ?r" by (simp add: run_model)
  then have t': "exec_try demo ?sql ?sql [] ?st1 = (?r, ?st2)" by (simp add: prod_eq_iff)
  have "fst (isDatabaseReady demo ?st2)" by (simp add: run_model)
  then have d: "isDatabaseReady demo ?st2 = (True, ?st3)" by (simp add: prod_eq_iff)
  have l1: "betterTrigram_load demo (sqlite ?st3) (world ?st3) = (Inr (), world ?st3)"
    by (simp add: demo_def)
  have l2: "fts5Html_load demo (sqlite ?st3) (world ?st3) = (Inr (), world ?st3)"
    by (simp add: demo_def)
  from exec_probe_and_load [OF n, where ops = demo and sql = ?sql and ps = "[]"
      and p = ?sql and ?st1.0 = ?st1 and r = ?r and ?st2.0 = ?st2 and ?st3.0 = ?st3
      and w = "world ?st3" and w' = "world ?st3"] p' t' d l1 l2
  have x: "exec demo ?sql [] ?st =
      (?r, (native NLoadFts5Html (world ?st3) (native NLoadTrigram (world ?st3) ?st3))
             \<lparr>extensionsLoaded := True\<rparr>)"
    by blast
  have c: "calls ?st3 =
      [NOpen ''notes.db'', NCompile ''PRAGMA key = 1'', NRun, NCompile ''SELECT 1;'', NRun]"
    by (simp add: run_model)
  from n p t x c show ?thesis by simp
qed

subsection \<open>The extension flag over sequences of calls\<close>

lemma open_frame:
  "preparedStatements (snd (open ops f st)) = preparedStatements st \<and>
   retryCounter (snd (open ops f st)) = retryCounter st \<and>
   extensionsLoaded (snd (open ops f st)) = extensionsLoaded st \<and>
   load_events (calls (snd (open ops f st))) = load_events (calls st)"
  by (simp add: open_def split: option.splits prod.splits sum.splits)

lemma close_frame:
  "sqlite (close ops st) = None \<and>
   retryCounter (close ops st) = retryCounter st \<and>
   extensionsLoaded (close ops st) = extensionsLoaded st \<and>
   initialized (close ops st) = initialized st \<and>
   load_events (calls (close ops st)) = load_events (calls st)"
  by (simp add: close_def split: option.splits)

lemma delete_frame:
  "sqlite (snd (delete ops f st)) = None \<and>
   retryCounter (snd (delete ops f st)) = retryCounter st \<and>
   extensionsLoaded (snd (delete ops f st)) = extensionsLoaded st \<and>
   load_events (calls (snd (delete ops f st))) = load_events (calls st)"
  using close_frame [of ops st]
  by (simp add: delete_def Let_def split: prod.splits sum.splits)

lemma prepare_load_events:
  "load_events (calls (snd (prepare ops sql st))) = load_events (calls st) \<and>
   extensionsLoaded (snd (prepare ops sql st)) = extensionsLoaded st"
proof -
  from prepare_frame [of ops sql st] obtain n where
    "calls (snd (prepare ops sql st)) = calls st @ replicate n (NCompile sql)"
    "extensionsLoaded (snd (prepare ops sql st)) = extensionsLoaded st"
    by blast
  then show ?thesis by simp
qed






text \<open>Once the flag is set no call clears it or calls a loader, whatever the loaders do.\<close>

lemma exec_loaded:
  assumes "extensionsLoaded st"
  shows "extensionsLoaded (snd (exec ops sql ps st)) \<and>
         load_events (calls (snd (exec ops sql ps st))) = load_events (calls st)"
proof -
  obtain r1 st1 where p: "prepare ops sql st = (r1, st1)" by (cases "prepare ops sql st")
  note f1 = prepare_load_events [of ops sql st, unfolded p, simplified]
  show ?thesis
  proof (cases r1)
    case (Inl e)
    with p f1 assms show ?thesis by (simp add: exec_def)
  next
    case (Inr po)
    show ?thesis
    proof (cases po)
      case None
      with p f1 Inr assms show ?thesis by (simp add: exec_def)
    next
      case (Some q)
      obtain r2 st2 where t: "exec_try ops q sql ps st1 = (r2, st2)"
        by (cases "exec_try ops q sql ps st1")
      note f2 = exec_try_frame [of ops q sql ps st1, unfolded t, simplified]
      from f1 f2 assms have l: "extensionsLoaded st2" by simp
      from p Inr Some t have "exec ops sql ps st = exec_finally ops r2 st2"
        by (simp add: exec_def)
      with l have "exec ops sql ps st = (r2, st2)" by (simp add: exec_finally_def)
      with f1 f2 l show ?thesis by simp
    qed
  qed
qed

lemma step_loaded:
  assumes "extensionsLoaded st"
  shows "extensionsLoaded (step ops c st) \<and>
         load_events (calls (step ops c st)) = load_events (calls st)"
proof (cases c)
  case (Open f)
  with assms show ?thesis using open_frame [of ops f st] by simp
next
  case (Prepare sql)
  with assms show ?thesis using prepare_load_events [of ops sql st] by simp
next
  case (Exec sql ps)
  with assms show ?thesis using exec_loaded [of st ops sql ps] by simp
next
  case (Run sql pso)
  show ?thesis
  proof (cases "sqlite st")
    case None
    with Run assms show ?thesis by (simp add: run_def)
  next
    case (Some h)
    with Run assms show ?thesis
      using exec_loaded [of st ops sql "case pso of None \<Rightarrow> [] | Some ps \<Rightarrow> ps"]
      by (simp add: run_def)
  qed
next
  case Close
  with assms show ?thesis using close_frame [of ops st] by simp
next
  case (Delete f)
  with assms show ?thesis using delete_frame [of ops f st] by simp
qed

lemma steps_loaded:
  "extensionsLoaded st \<Longrightarrow>
   extensionsLoaded (steps ops cs st) \<and>
   load_events (calls (steps ops cs st)) = load_events (calls st)"
proof (induction cs arbitrary: st)
  case Nil
  then show ?case by simp
next
  case (Cons c cs)
  from step_loaded [OF Cons.prems, of ops c]
  have s: "extensionsLoaded (step ops c st)"
    "load_events (calls (step ops c st)) = load_events (calls st)"
    by simp_all
  from Cons.IH [OF s(1)] s(2) show ?case by simp
qed





lemma steps_append: "steps ops (xs @ ys) st = steps ops ys (steps ops xs st)"
  by (induction xs arbitrary: st) simp_all






subsection \<open>close and delete\<close>

text \<open>
  On every state a new instance can reach, a statement is cached only while a handle is
  open.
\<close>

lemma step_cache_needs_handle:
  assumes "sqlite st = None \<longrightarrow> preparedStatements st = Map.empty"
  shows "sqlite (step ops c st) = None \<longrightarrow> preparedStatements (step ops c st) = Map.empty"
proof (cases c)
  case (Open f)
  with assms show ?thesis using open_frame [of ops f st]
    by (auto simp add: open_def split: option.splits prod.splits sum.splits)
next
  case (Prepare sql)
  with assms show ?thesis using prepare_frame [of ops sql st]
    by (cases "sqlite st") (simp_all add: prepare_closed)
next
  case (Exec sql ps)
  with assms show ?thesis using exec_after_prepare [of ops sql ps st]
    by (cases "sqlite st") (simp_all add: prepare_closed)
next
  case (Run sql pso)
  with assms show ?thesis
    using exec_after_prepare [of ops sql "case pso of None \<Rightarrow> [] | Some ps \<Rightarrow> ps" st]
    by (cases "sqlite st") (simp_all add: run_def)
next
  case Close
  with assms show ?thesis by (simp add: close_def split: option.splits)
next
  case (Delete f)
  with assms show ?thesis
    by (simp add: delete_def close_def Let_def split: option.splits prod.splits sum.splits)
qed

lemma steps_cache_needs_handle:
  "sqlite st = None \<longrightarrow> preparedStatements st = Map.empty \<Longrightarrow>
   sqlite (steps ops cs st) = None \<longrightarrow> preparedStatements (steps ops cs st) = Map.empty"
proof (induction cs arbitrary: st)
  case Nil
  then show ?case by simp
next
  case (Cons c cs)
  from Cons.IH [OF step_cache_needs_handle [OF Cons.prems, of ops c]] show ?case by simp
qed

lemma new_cache_empty:
  "sqlite (new_SQLite w) = None \<longrightarrow> preparedStatements (new_SQLite w) = Map.empty"
  by (simp add: new_SQLite_def)

lemma close_clears_reachable:
  "preparedStatements (close ops (steps ops cs (new_SQLite w))) = Map.empty"
  using steps_cache_needs_handle [OF new_cache_empty, of ops cs w]
  by (auto simp add: close_def split: option.splits)

text \<open>
  C10. \<^verbatim>\<open>close()\<close> leaves the retry counters and the extension flag as they are and
  leaves no handle; when a handle was open the statement cache is empty afterwards, and
  so it is after \<^verbatim>\<open>close()\<close> on every state a new instance reaches by calls of its
  methods. Hence, when the flag is set, after \<^verbatim>\<open>close\<close> and a new \<^verbatim>\<open>open\<close> no
  later call calls a loader for the new handle, and the flag stays set.
\<close>

theorem close_keeps_flag_and_counters:
  "retryCounter (close ops st) = retryCounter st \<and>
   extensionsLoaded (close ops st) = extensionsLoaded st \<and>
   sqlite (close ops st) = None \<and>
   (sqlite st \<noteq> None \<longrightarrow> preparedStatements (close ops st) = Map.empty) \<and>
   preparedStatements (close ops (steps ops cs0 (new_SQLite w0))) = Map.empty \<and>
   (extensionsLoaded st \<longrightarrow>
      extensionsLoaded (steps ops (Open f # cs) (close ops st)) \<and>
      load_events (calls (steps ops (Open f # cs) (close ops st))) = load_events (calls st))"
proof -
  have c: "(sqlite st \<noteq> None \<longrightarrow> preparedStatements (close ops st) = Map.empty) \<and>
      preparedStatements (close ops (steps ops cs0 (new_SQLite w0))) = Map.empty"
    using close_clears_reachable [of ops cs0 w0] by (auto simp add: close_def)
  have "extensionsLoaded st \<longrightarrow>
      extensionsLoaded (steps ops (Open f # cs) (close ops st)) \<and>
      load_events (calls (steps ops (Open f # cs) (close ops st))) = load_events (calls st)"
  proof
    assume "extensionsLoaded st"
    with close_frame [of ops st] have l: "extensionsLoaded (close ops st)" by simp
    from steps_loaded [OF l, of ops "Open f # cs"] close_frame [of ops st]
    show "extensionsLoaded (steps ops (Open f # cs) (close ops st)) \<and>
      load_events (calls (steps ops (Open f # cs) (close ops st))) = load_events (calls st)"
      by simp
  qed
  with c close_frame [of ops st] show ?thesis by simp
qed

lemma demo_ready_fields:
  "sqlite demo_ready = Some 0"
  "extensionsLoaded demo_ready"
  "preparedStatements demo_ready ''PRAGMA key = 1'' = Some ''PRAGMA key = 1''"
  "retryCounter demo_ready ''PRAGMA key = 1'' = Some 0"
  "world demo_ready = \<lparr>keyed = True, flaky = 0\<rparr>"
  "calls demo_ready =
     [NOpen ''notes.db'', NCompile ''PRAGMA key = 1'', NRun, NCompile ''SELECT 1;'', NRun,
      NLoadTrigram, NLoadFts5Html]"
  by (simp_all add: demo_ready_def run_model)

theorem close_keeps_flag_and_counters_witness:
  "sqlite demo_ready \<noteq> None \<and> extensionsLoaded demo_ready \<and>
   preparedStatements demo_ready ''PRAGMA key = 1'' = Some ''PRAGMA key = 1'' \<and>
   preparedStatements (close demo demo_ready) = Map.empty \<and>
   sqlite (close demo demo_ready) = None \<and>
   retryCounter (close demo demo_ready) ''PRAGMA key = 1'' = Some 0 \<and>
   extensionsLoaded (close demo demo_ready) \<and>
   sqlite (steps demo [Open ''other.db''] (close demo demo_ready)) = Some 0 \<and>
   load_events (calls (steps demo
     [Open ''other.db'', Exec ''SELECT title FROM notes'' [], Exec ''SELECT body FROM notes'' []]
     (close demo demo_ready))) = [NLoadTrigram, NLoadFts5Html]"
proof -
  note c = close_keeps_flag_and_counters [where ops = demo and st = demo_ready
      and f = "''other.db''"
      and cs = "[Exec ''SELECT title FROM notes'' [], Exec ''SELECT body FROM notes'' []]"]
  have o: "sqlite (steps demo [Open ''other.db''] (close demo demo_ready)) = Some 0"
    by (simp add: close_def open_def demo_ready_fields demo_def native_def)
  from c o show ?thesis by (simp add: demo_ready_fields)
qed




end
